theory Spec2Isabelle
  imports Main
begin

section \<open>Library functions of the Go runtime used by the programs\<close>

text \<open>
  Strings are byte sequences, as in Go: \<^typ>\<open>string\<close> is a list of 8-bit characters.
  The line terminator of the wire protocol is the byte 0x0A.
\<close>

definition NL :: char where
  "NL = CHR 0x0A"

subsection \<open>Package strings\<close>

text \<open>\<^verbatim>\<open>strings.HasPrefix(s, prefix)\<close>: \<^verbatim>\<open>len(s) >= len(prefix) && s[:len(prefix)] == prefix\<close>.\<close>

definition HasPrefix :: "string \<Rightarrow> string \<Rightarrow> bool" where
  "HasPrefix s pre = (length pre \<le> length s \<and> take (length pre) s = pre)"

text \<open>\<^verbatim>\<open>strings.TrimPrefix(s, prefix)\<close>.\<close>

definition TrimPrefix :: "string \<Rightarrow> string \<Rightarrow> string" where
  "TrimPrefix s pre = (if HasPrefix s pre then drop (length pre) s else s)"

text \<open>
  \<^verbatim>\<open>strings.TrimSpace\<close> removes leading and trailing white space as defined by Unicode
  (\<^verbatim>\<open>unicode.IsSpace\<close>): U+0009..U+000D, U+0020, U+0085, U+00A0, U+1680,
  U+2000..U+200A, U+2028, U+2029, U+202F, U+205F, U+3000. On the bytes of a string
  these are the following UTF-8 sequences; Go's decoder accepts only these shortest forms.
\<close>

definition space_runes :: "string list" where
  "space_runes =
    [[CHR 0x09], [CHR 0x0A], [CHR 0x0B], [CHR 0x0C], [CHR 0x0D], [CHR 0x20],
     [CHR 0xC2, CHR 0x85], [CHR 0xC2, CHR 0xA0],
     [CHR 0xE1, CHR 0x9A, CHR 0x80],
     [CHR 0xE2, CHR 0x80, CHR 0x80], [CHR 0xE2, CHR 0x80, CHR 0x81],
     [CHR 0xE2, CHR 0x80, CHR 0x82], [CHR 0xE2, CHR 0x80, CHR 0x83],
     [CHR 0xE2, CHR 0x80, CHR 0x84], [CHR 0xE2, CHR 0x80, CHR 0x85],
     [CHR 0xE2, CHR 0x80, CHR 0x86], [CHR 0xE2, CHR 0x80, CHR 0x87],
     [CHR 0xE2, CHR 0x80, CHR 0x88], [CHR 0xE2, CHR 0x80, CHR 0x89],
     [CHR 0xE2, CHR 0x80, CHR 0x8A],
     [CHR 0xE2, CHR 0x80, CHR 0xA8], [CHR 0xE2, CHR 0x80, CHR 0xA9],
     [CHR 0xE2, CHR 0x80, CHR 0xAF], [CHR 0xE2, CHR 0x81, CHR 0x9F],
     [CHR 0xE3, CHR 0x80, CHR 0x80]]"

text \<open>
  \<^verbatim>\<open>strings.TrimLeftFunc\<close> specialised to a set of encoded runes: while the string starts with
  one of them, drop it.
\<close>

function trim_left_runes :: "string list \<Rightarrow> string \<Rightarrow> string" where
  "trim_left_runes rs s =
     (case find (\<lambda>r. r \<noteq> [] \<and> HasPrefix s r) rs of
        None \<Rightarrow> s
      | Some r \<Rightarrow> trim_left_runes rs (drop (length r) s))"
  by pat_completeness auto
termination
proof (relation "measure (\<lambda>(rs, s). length s)")
  show "wf (measure (\<lambda>(rs, s). length s))" by simp
next
  fix rs :: "string list" and s r :: string
  assume "find (\<lambda>r. r \<noteq> [] \<and> HasPrefix s r) rs = Some r"
  then have "r \<noteq> []" and "HasPrefix s r"
    by (auto simp: find_Some_iff)
  then have "0 < length r" and "length r \<le> length s"
    by (auto simp: HasPrefix_def)
  then have "length s - length r < length s"
    by linarith
  then show "((rs, drop (length r) s), (rs, s)) \<in> measure (\<lambda>(rs, s). length s)"
    by simp
qed

declare trim_left_runes.simps [simp del]

text \<open>
  The right end is trimmed the same way on the reversed bytes (\<^verbatim>\<open>DecodeLastRuneInString\<close>
  finds the lead byte of the last rune, so a trailing white-space rune is exactly a suffix
  that is one of the sequences above).
\<close>

definition TrimSpace :: "string \<Rightarrow> string" where
  "TrimSpace s =
     rev (trim_left_runes (map rev space_runes) (rev (trim_left_runes space_runes s)))"

subsection \<open>Package path/filepath (Unix)\<close>

text \<open>\<^verbatim>\<open>strings.Split(s, "/")\<close>: the fields between separators, empty ones included.\<close>

fun split_on :: "char \<Rightarrow> string \<Rightarrow> string list" where
  "split_on c [] = [[]]"
| "split_on c (x # xs) =
     (if x = c then [] # split_on c xs
      else (x # hd (split_on c xs)) # tl (split_on c xs))"

fun join_slash :: "string list \<Rightarrow> string" where
  "join_slash [] = []"
| "join_slash [x] = x"
| "join_slash (x # y # ys) = x @ ''/'' @ join_slash (y # ys)"

text \<open>
  \<^verbatim>\<open>filepath.Clean\<close> processes the path elements from left to right: empty elements and
  \<^verbatim>\<open>.\<close> are dropped; \<^verbatim>\<open>..\<close> removes the element before it, is dropped at the root of a
  rooted path, and is kept at the start of a relative path. The stack is kept reversed.
\<close>

definition clean_step :: "bool \<Rightarrow> string list \<Rightarrow> string \<Rightarrow> string list" where
  "clean_step rooted st c =
     (if c = ''..'' then
        (case st of
           [] \<Rightarrow> (if rooted then [] else [c])
         | t # ts \<Rightarrow> (if t = ''..'' then c # st else ts))
      else c # st)"

definition path_elems :: "string \<Rightarrow> string list" where
  "path_elems p = filter (\<lambda>c. c \<noteq> [] \<and> c \<noteq> ''.'') (split_on CHR ''/'' p)"

definition Clean :: "string \<Rightarrow> string" where
  "Clean p =
     (if p = [] then ''.''
      else let rooted = (hd p = CHR ''/'');
               st = foldl (clean_step rooted) [] (path_elems p);
               out = (if rooted then ''/'' else []) @ join_slash (rev st)
           in if out = [] then ''.'' else out)"

text \<open>
  \<^verbatim>\<open>filepath.Join(a, b)\<close>: leading empty elements are skipped, the rest is joined with the
  separator and cleaned; the result is empty when every element is.
\<close>

definition Join :: "string \<Rightarrow> string \<Rightarrow> string" where
  "Join a b =
     (if a \<noteq> [] then Clean (a @ ''/'' @ b)
      else if b \<noteq> [] then Clean b
      else [])"

text \<open>\<^verbatim>\<open>filepath.Base\<close>: the last element of the path, after removing trailing slashes.\<close>

definition Base :: "string \<Rightarrow> string" where
  "Base p =
     (if p = [] then ''.''
      else let q = rev (dropWhile (\<lambda>c. c = CHR ''/'') (rev p));
               b = rev (takeWhile (\<lambda>c. c \<noteq> CHR ''/'') (rev q))
           in if b = [] then ''/'' else b)"

subsection \<open>Formatting a size in MB with two decimals\<close>

fun digit_char :: "nat \<Rightarrow> char" where
  "digit_char d =
     (if d = 0 then CHR ''0'' else if d = 1 then CHR ''1'' else if d = 2 then CHR ''2''
      else if d = 3 then CHR ''3'' else if d = 4 then CHR ''4'' else if d = 5 then CHR ''5''
      else if d = 6 then CHR ''6'' else if d = 7 then CHR ''7'' else if d = 8 then CHR ''8''
      else CHR ''9'')"

fun decimal :: "nat \<Rightarrow> string" where
  "decimal n = (if n < 10 then [digit_char n] else decimal (n div 10) @ [digit_char (n mod 10)])"

declare decimal.simps [simp del]

fun bit_length :: "nat \<Rightarrow> nat" where
  "bit_length n = (if n = 0 then 0 else Suc (bit_length (n div 2)))"

declare bit_length.simps [simp del]

text \<open>Rounding a quotient \<open>n / d\<close> to the nearest integer, ties to the even one.\<close>

definition round_half_even :: "nat \<Rightarrow> nat \<Rightarrow> nat" where
  "round_half_even n d =
     (let q = n div d; r = n mod d
      in if d < 2 * r \<or> (2 * r = d \<and> odd q) then q + 1 else q)"

text \<open>
  \<^verbatim>\<open>float64(stat.Size())\<close>: a size below \<open>2^53\<close> is represented exactly; a larger one is
  rounded to 53 significant bits, ties to even. The value is still an integer.
\<close>

definition float64_of_size :: "nat \<Rightarrow> nat" where
  "float64_of_size n =
     (if n < 2 ^ 53 then n
      else let k = bit_length n - 53 in round_half_even n (2 ^ k) * 2 ^ k)"

text \<open>
  \<^verbatim>\<open>fmt.Sprintf("%.2f", float64(size) / 1024 / 1024)\<close>. Both divisions are by a power of
  two and exact; the formatter prints the exact value rounded to two decimals, ties to
  even.
\<close>

definition fmt_size_mb :: "nat \<Rightarrow> string" where
  "fmt_size_mb sz =
     (let h = round_half_even (float64_of_size sz * 100) (2 ^ 20)
      in decimal (h div 100) @ ''.'' @ [digit_char (h div 10 mod 10), digit_char (h mod 10)])"

section \<open>The build server (src/cmd/billder/main.go)\<close>

subsection \<open>Data\<close>

text \<open>
  \<^verbatim>\<open>RequestPayload\<close>, the decoded JSON body. A key that is absent from the JSON object
  leaves its field at Go's zero value, the empty string.
\<close>

record RequestPayload =
  RepoURL :: string
  TargetOS :: string
  TargetArch :: string

text \<open>
  What the handler reads of \<^verbatim>\<open>*http.Request\<close>: the method, the value of
  \<^verbatim>\<open>r.Header.Get("X-Billder-Token")\<close> (empty when the header is absent) and the result of
  \<^verbatim>\<open>json.NewDecoder(r.Body).Decode(&payload)\<close> on the body limited to 4096 bytes
  (\<open>None\<close> when the decoder returns an error).
\<close>

record Request =
  Method :: string
  X_Billder_Token :: string
  Decode :: "RequestPayload option"

text \<open>
  Everything outside the handler that it consults, one field per call site: the process
  environment, whether the response writer is an \<^verbatim>\<open>http.Flusher\<close>, and the outcome of each
  file-system call and subprocess. A subprocess outcome is its combined output and whether
  it returned without error.
\<close>

record World =
  AUTH_TOKEN :: string
  Environ :: "string list"
  is_flusher :: bool
  MkdirTemp :: "string option"
  git_clone :: "string \<times> bool"
  ReadDir :: "string list"
  go_mod_tidy :: "string \<times> bool"
  go_build :: "string \<times> bool"
  Stat_size :: "nat option"
  Open_file :: "string option"
  copy_error_after :: "nat option"

text \<open>An external command as built by \<^verbatim>\<open>exec.Command\<close>, with its \<^verbatim>\<open>Dir\<close> and \<^verbatim>\<open>Env\<close>.\<close>

record Cmd =
  prog :: string
  args :: "string list"
  dir :: string
  cmd_env :: "string list option"

text \<open>The lines the handlers write to the server log, by call site.\<close>

datatype log_entry =
    Received RequestPayload
  | CloneError string
  | Cloned string "string list"
  | RunningBuild "string list"
  | BuildOutput string
  | BinaryBuilt string string
  | StreamingError
  | CloneOutput string
  | TidyWarning string
  | BuildError string

text \<open>
  The state a handler run leaves behind: the HTTP status (200 unless \<^verbatim>\<open>http.Error\<close> sets
  another one), the response headers, the bytes written to the response body, the log, the
  subprocesses started (in order), the directories removed by the deferred
  \<^verbatim>\<open>os.RemoveAll\<close>, and whether the run ended in a panic.
\<close>

record Run =
  status :: nat
  headers :: "(string \<times> string) list"
  body :: string
  log :: "log_entry list"
  cmds :: "Cmd list"
  removed :: "string list"
  panicked :: bool

definition start :: Run where
  "start = \<lparr>status = 200, headers = [], body = [], log = [], cmds = [], removed = [],
            panicked = False\<rparr>"

subsection \<open>Writing to the response\<close>

definition set_header :: "string \<Rightarrow> string \<Rightarrow> Run \<Rightarrow> Run" where
  "set_header k v w = w\<lparr>headers := (k, v) # filter (\<lambda>kv. fst kv \<noteq> k) (headers w)\<rparr>"

text \<open>
  \<^verbatim>\<open>http.Error(w, msg, code)\<close>: resets the content type, sets the status and writes the
  message followed by a newline.
\<close>

definition http_Error :: "string \<Rightarrow> nat \<Rightarrow> Run \<Rightarrow> Run" where
  "http_Error msg code w =
     (set_header ''X-Content-Type-Options'' ''nosniff''
        (set_header ''Content-Type'' ''text/plain; charset=utf-8''
           (w\<lparr>headers := filter (\<lambda>kv. fst kv \<noteq> ''Content-Length'') (headers w)\<rparr>)))
     \<lparr>status := code, body := body w @ msg @ [NL]\<rparr>"

text \<open>
  The closure \<^verbatim>\<open>sendProgress\<close>: \<^verbatim>\<open>fmt.Fprintf(w, "data: %s\n\n", msg)\<close> and a flush. The
  flush changes no byte of the body.
\<close>

definition sendProgress :: "string \<Rightarrow> Run \<Rightarrow> Run" where
  "sendProgress msg w = w\<lparr>body := body w @ ''data: '' @ msg @ [NL, NL]\<rparr>"

text \<open>\<^verbatim>\<open>fmt.Fprintf(w, "event: binary_start\ndata: %s\n\n", name)\<close> and a flush.\<close>

definition send_binary_start :: "string \<Rightarrow> Run \<Rightarrow> Run" where
  "send_binary_start name w =
     w\<lparr>body := body w @ ''event: binary_start'' @ [NL] @ ''data: '' @ name @ [NL, NL]\<rparr>"

definition log_line :: "log_entry \<Rightarrow> Run \<Rightarrow> Run" where
  "log_line l w = w\<lparr>log := log w @ [l]\<rparr>"

definition run_cmd :: "Cmd \<Rightarrow> Run \<Rightarrow> Run" where
  "run_cmd c w = w\<lparr>cmds := cmds w @ [c]\<rparr>"

text \<open>The deferred \<^verbatim>\<open>os.RemoveAll(tmpDir)\<close>, run on every exit once the workspace exists.\<close>

definition RemoveAll :: "string \<Rightarrow> Run \<Rightarrow> Run" where
  "RemoveAll d w = w\<lparr>removed := removed w @ [d]\<rparr>"

subsection \<open>The handler, step by step\<close>

text \<open>Step 5: the compiler environment, or \<open>None\<close> in the \<^verbatim>\<open>default\<close> branch of the switch.\<close>

definition compiler_env :: "string list \<Rightarrow> RequestPayload \<Rightarrow> string list option" where
  "compiler_env baseEnv payload =
     (if TargetOS payload = ''windows'' then
        Some (baseEnv @ [''CGO_ENABLED=1'', ''GOOS=windows'', ''GOARCH='' @ TargetArch payload,
                         ''CC=x86_64-w64-mingw32-gcc'', ''CXX=x86_64-w64-mingw32-g++''])
      else if TargetOS payload = ''linux'' then
        Some (baseEnv @ [''CGO_ENABLED=1'', ''GOOS=linux'', ''GOARCH='' @ TargetArch payload,
                         ''CC=gcc''])
      else None)"

text \<open>Step 9: the output path and the arguments of \<^verbatim>\<open>go build\<close>.\<close>

definition outputBinary :: "string \<Rightarrow> RequestPayload \<Rightarrow> string" where
  "outputBinary tmpDir payload =
     (if TargetOS payload = ''windows'' then Join tmpDir ''app'' @ ''.exe''
      else Join tmpDir ''app'')"

definition buildArgs :: "string \<Rightarrow> RequestPayload \<Rightarrow> string list" where
  "buildArgs tmpDir payload =
     [''build'', ''-trimpath'', ''-o'', outputBinary tmpDir payload]
     @ (if TargetOS payload = ''windows'' then [''-ldflags'', ''-s -w -H=windowsgui'']
        else [''-ldflags'', ''-s -w''])
     @ [''.'']"

text \<open>
  \<^verbatim>\<open>io.Copy(w, f)\<close> on a file holding \<open>bytes\<close>: all of them reach the response body, or,
  when the copy fails after \<open>n\<close> bytes, the first \<open>n\<close>.
\<close>

definition io_Copy :: "nat option \<Rightarrow> string \<Rightarrow> string" where
  "io_Copy fails_after bytes = (case fails_after of None \<Rightarrow> bytes | Some n \<Rightarrow> take n bytes)"

text \<open>
  Step 10, the hand-over. \<^verbatim>\<open>stat, _ := os.Stat(outputBinary)\<close> ignores the error, so a
  failed stat makes \<^verbatim>\<open>stat.Size()\<close> dereference nil: the handler panics and writes nothing
  more. \<^verbatim>\<open>io.Copy\<close> stops at the first error; the bytes it had written stay written.
\<close>

definition handover :: "World \<Rightarrow> string \<Rightarrow> RequestPayload \<Rightarrow> Run \<Rightarrow> Run" where
  "handover e tmpDir payload w =
     (case Stat_size e of
        None \<Rightarrow> w\<lparr>panicked := True\<rparr>
      | Some sz \<Rightarrow>
          let w1 = log_line (BinaryBuilt (outputBinary tmpDir payload) (fmt_size_mb sz)) w;
              w2 = sendProgress (''Build Successful! Artifact size: '' @ fmt_size_mb sz @ '' MB'') w1
          in (case Open_file e of
                None \<Rightarrow> sendProgress ''Error: Could not open built artifact'' w2
              | Some bytes \<Rightarrow>
                  let w3 = send_binary_start (Base (outputBinary tmpDir payload)) w2;
                      w4 = w3\<lparr>body := body w3 @ io_Copy (copy_error_after e) bytes\<rparr>
                  in if copy_error_after e \<noteq> None then log_line StreamingError w4 else w4))"

text \<open>Step 9, the compilation.\<close>

definition compile :: "World \<Rightarrow> string list \<Rightarrow> string \<Rightarrow> RequestPayload \<Rightarrow> Run \<Rightarrow> Run" where
  "compile e env tmpDir payload w =
     (let w1 = sendProgress ''Step 3/3: Compiling...'' w;
          buildCmd = \<lparr>prog = ''go'', args = buildArgs tmpDir payload,
                      dir = Join tmpDir ''src'', cmd_env = Some env\<rparr>;
          w2 = run_cmd buildCmd (log_line (RunningBuild (''go'' # buildArgs tmpDir payload)) w1)
      in if \<not> snd (go_build e) then
           sendProgress ''Error: Compilation failed.'' (log_line (BuildOutput (fst (go_build e))) w2)
         else handover e tmpDir payload w2)"

text \<open>Step 8: \<^verbatim>\<open>_ = tidyCmd.Run()\<close>; the error is discarded.\<close>

definition tidy :: "World \<Rightarrow> string list \<Rightarrow> string \<Rightarrow> RequestPayload \<Rightarrow> Run \<Rightarrow> Run" where
  "tidy e env tmpDir payload w =
     (let w1 = sendProgress ''Step 2/3: Resolving dependencies...'' w;
          tidyCmd = \<lparr>prog = ''go'', args = [''mod'', ''tidy''],
                     dir = Join tmpDir ''src'', cmd_env = Some env\<rparr>
      in compile e env tmpDir payload (run_cmd tidyCmd w1))"

text \<open>Step 7, the clone, and the check that it produced something.\<close>

definition clone :: "World \<Rightarrow> string list \<Rightarrow> string \<Rightarrow> RequestPayload \<Rightarrow> Run \<Rightarrow> Run" where
  "clone e env tmpDir payload w =
     (let w1 = sendProgress ''Step 1/3: Cloning repository...'' w;
          repoPath = Join tmpDir ''src'';
          cloneCmd = \<lparr>prog = ''git'', args = [''clone'', ''https://'' @ RepoURL payload, repoPath],
                      dir = [], cmd_env = None\<rparr>;
          w2 = run_cmd cloneCmd w1
      in if \<not> snd (git_clone e) then
           sendProgress ''Error: Git clone failed. Is the URL correct?''
             (log_line (CloneError (fst (git_clone e))) w2)
         else if length (ReadDir e) = 0 then
           sendProgress ''Error: Repository is empty.'' w2
         else tidy e env tmpDir payload (log_line (Cloned repoPath (ReadDir e)) w2))"

text \<open>Steps 4 to 6, from the decoded payload to the workspace.\<close>

definition build :: "World \<Rightarrow> RequestPayload \<Rightarrow> Run \<Rightarrow> Run" where
  "build e decoded w =
     (let w1 = log_line (Received decoded) w;
          payload = (if TargetArch decoded = [] then decoded\<lparr>TargetArch := ''amd64''\<rparr>
                     else decoded);
          w2 = sendProgress (''Starting job for '' @ RepoURL payload @ '' ['' @ TargetOS payload
                              @ ''/'' @ TargetArch payload @ '']'') w1
      in case compiler_env (Environ e) payload of
           None \<Rightarrow> sendProgress ''Error: Unsupported OS. Only 'linux' and 'windows' supported.'' w2
         | Some env \<Rightarrow>
             (case MkdirTemp e of
                None \<Rightarrow> sendProgress ''Error: Failed to create workspace'' w2
              | Some tmpDir \<Rightarrow> RemoveAll tmpDir (clone e env tmpDir payload w2)))"

text \<open>Steps 1 to 4: method, shared secret, streaming headers, body.\<close>

definition buildHandler :: "World \<Rightarrow> Request \<Rightarrow> Run" where
  "buildHandler e r =
     (if Method r \<noteq> ''POST'' then http_Error ''Method Not Allowed'' 405 start
      else if AUTH_TOKEN e \<noteq> [] \<and> X_Billder_Token r \<noteq> AUTH_TOKEN e then
        http_Error ''Unauthorized'' 401 start
      else
        let w = set_header ''Connection'' ''keep-alive''
                  (set_header ''Cache-Control'' ''no-cache''
                     (set_header ''Content-Type'' ''text/event-stream'' start))
        in if \<not> is_flusher e then http_Error ''Streaming unsupported'' 500 w
           else (case Decode r of
                   None \<Rightarrow> sendProgress ''Error: Invalid JSON payload'' w
                 | Some decoded \<Rightarrow> build e decoded w))"

section \<open>The earlier build server (src/unnamed/part_001)\<close>

text \<open>
  The repository holds a second, earlier \<^verbatim>\<open>buildHandler\<close>: no method or token check, a
  \<^verbatim>\<open>darwin\<close> branch, no check of the cloned directory, and a closing event instead of the
  artifact. It reads the same request and the same world.
\<close>

definition finish_part_001 :: "World \<Rightarrow> Run \<Rightarrow> Run" where
  "finish_part_001 e w =
     (case Stat_size e of
        None \<Rightarrow> w\<lparr>panicked := True\<rparr>
      | Some sz \<Rightarrow>
          let w1 = sendProgress (''Success! Binary size: '' @ fmt_size_mb sz @ '' MB'') w
          in w1\<lparr>body := body w1 @ ''event: close'' @ [NL] @ ''data: close'' @ [NL, NL]\<rparr>)"

definition compile_part_001 ::
  "World \<Rightarrow> string list \<Rightarrow> string \<Rightarrow> RequestPayload \<Rightarrow> Run \<Rightarrow> Run" where
  "compile_part_001 e env tmpDir payload w =
     (let w1 = sendProgress ''Compiling (this may take 1-2 minutes for Fyne)...'' w;
          buildCmd = \<lparr>prog = ''go'', args = buildArgs tmpDir payload,
                      dir = Join tmpDir ''src'', cmd_env = Some env\<rparr>;
          w2 = run_cmd buildCmd w1
      in if \<not> snd (go_build e) then
           sendProgress ''Error: Build failed. Check logs for C compiler errors.''
             (log_line (BuildError (fst (go_build e))) w2)
         else finish_part_001 e w2)"

text \<open>Step 4 of the earlier handler: a failing \<^verbatim>\<open>go mod tidy\<close> is logged and nothing else.\<close>

definition tidy_part_001 ::
  "World \<Rightarrow> string list \<Rightarrow> string \<Rightarrow> RequestPayload \<Rightarrow> Run \<Rightarrow> Run" where
  "tidy_part_001 e env tmpDir payload w =
     (let w1 = sendProgress ''Resolving dependencies...'' w;
          tidyCmd = \<lparr>prog = ''go'', args = [''mod'', ''tidy''],
                     dir = Join tmpDir ''src'', cmd_env = Some env\<rparr>;
          w2 = run_cmd tidyCmd w1;
          w3 = (if \<not> snd (go_mod_tidy e) then log_line (TidyWarning (fst (go_mod_tidy e))) w2
                else w2)
      in compile_part_001 e env tmpDir payload w3)"

definition clone_part_001 ::
  "World \<Rightarrow> string list \<Rightarrow> string \<Rightarrow> RequestPayload \<Rightarrow> Run \<Rightarrow> Run" where
  "clone_part_001 e env tmpDir payload w =
     (let w1 = sendProgress (''Cloning '' @ RepoURL payload @ ''...'') w;
          repoPath = Join tmpDir ''src'';
          cloneCmd = \<lparr>prog = ''git'', args = [''clone'', ''https://'' @ RepoURL payload, repoPath],
                      dir = [], cmd_env = None\<rparr>;
          w2 = run_cmd cloneCmd w1
      in if \<not> snd (git_clone e) then
           sendProgress ''Error: Git clone failed'' (log_line (CloneOutput (fst (git_clone e))) w2)
         else tidy_part_001 e env tmpDir payload w2)"

definition workspace_part_001 ::
  "World \<Rightarrow> string list \<Rightarrow> RequestPayload \<Rightarrow> Run \<Rightarrow> Run" where
  "workspace_part_001 e env payload w =
     (case MkdirTemp e of
        None \<Rightarrow> sendProgress ''Error: Failed to create temp dir'' w
      | Some tmpDir \<Rightarrow> RemoveAll tmpDir (clone_part_001 e env tmpDir payload w))"

definition buildHandler_part_001 :: "World \<Rightarrow> Request \<Rightarrow> Run" where
  "buildHandler_part_001 e r =
     (let w = set_header ''Connection'' ''keep-alive''
                (set_header ''Cache-Control'' ''no-cache''
                   (set_header ''Content-Type'' ''text/event-stream'' start))
      in if \<not> is_flusher e then http_Error ''Streaming unsupported'' 500 w
         else (case Decode r of
                 None \<Rightarrow> sendProgress ''Error: Invalid JSON'' w
               | Some decoded \<Rightarrow>
                   let payload = (if TargetArch decoded = [] then decoded\<lparr>TargetArch := ''amd64''\<rparr>
                                  else decoded)
                   in if TargetOS payload = ''windows'' then
                        workspace_part_001 e
                          (Environ e @ [''CGO_ENABLED=1'', ''GOOS=windows'',
                                        ''GOARCH='' @ TargetArch payload,
                                        ''CC=x86_64-w64-mingw32-gcc'', ''CXX=x86_64-w64-mingw32-g++''])
                          payload (sendProgress ''Configuring build for Windows (MinGW)...'' w)
                      else if TargetOS payload = ''linux'' then
                        workspace_part_001 e
                          (Environ e @ [''CGO_ENABLED=1'', ''GOOS=linux'',
                                        ''GOARCH='' @ TargetArch payload, ''CC=gcc''])
                          payload (sendProgress ''Configuring build for Linux (Native GCC)...'' w)
                      else if TargetOS payload = ''darwin'' then
                        sendProgress ''Error: MacOS (darwin) cross-compilation with CGO is not supported in this container.'' w
                      else sendProgress ''Error: Unsupported OS'' w))"

section \<open>The client (src/cmd/client/main.go)\<close>

subsection \<open>The buffered reader\<close>

text \<open>
  \<^verbatim>\<open>bufio.NewReader(resp.Body)\<close>. The state of the reader is the bytes it has fetched from
  the connection and not yet handed out (its buffer), and the chunks the connection will
  still deliver, one per read of the body, in order. How the chunks are cut is up to the
  network; every theorem below holds for every cut. The reader's buffer has a fixed size
  in Go, and \<^verbatim>\<open>ReadBytes\<close> collects a line longer than it over several fills; the bytes
  handed out are the same as with one unbounded buffer.
\<close>

type_synonym Reader = "string \<times> string list"

text \<open>How the reads of the body end: with \<^verbatim>\<open>io.EOF\<close>, or with another error.\<close>

datatype conn_end = EOF | Broken

text \<open>The first line of a byte sequence, terminator included, and the bytes after it.\<close>

fun split_line :: "string \<Rightarrow> (string \<times> string) option" where
  "split_line [] = None"
| "split_line (c # cs) =
     (if c = NL then Some ([c], cs)
      else (case split_line cs of
              None \<Rightarrow> None
            | Some (l, rest) \<Rightarrow> Some (c # l, rest)))"

text \<open>
  \<^verbatim>\<open>reader.ReadBytes('\n')\<close> and \<^verbatim>\<open>reader.ReadString('\n')\<close>: hand out the buffer up to and
  including the first terminator, fetching chunks until there is one. When the connection
  ends first, everything fetched is handed out together with the error. The result is the
  data, whether the error is nil, and the reader afterwards.
\<close>

fun ReadBytes :: "string \<Rightarrow> string list \<Rightarrow> string \<times> bool \<times> Reader" where
  "ReadBytes b [] =
     (case split_line b of
        Some (l, rest) \<Rightarrow> (l, True, (rest, []))
      | None \<Rightarrow> (b, False, ([], [])))"
| "ReadBytes b (c # cs) =
     (case split_line b of
        Some (l, rest) \<Rightarrow> (l, True, (rest, c # cs))
      | None \<Rightarrow> ReadBytes (b @ c) cs)"

text \<open>The bytes a reader can still hand out: its buffer, then the rest of the connection.\<close>

definition remaining :: "Reader \<Rightarrow> string" where
  "remaining rd = fst rd @ concat (snd rd)"

lemma split_line_Some:
  "split_line s = Some (l, rest) \<Longrightarrow> s = l @ rest \<and> l \<noteq> []"
  by (induction s arbitrary: l) (auto split: if_splits option.splits)

lemma split_line_append_Some:
  "split_line s = Some (l, rest) \<Longrightarrow> split_line (s @ t) = Some (l, rest @ t)"
  by (induction s arbitrary: l) (auto split: if_splits option.splits)

lemma split_line_append_None:
  "split_line s = None \<Longrightarrow>
   split_line (s @ t) = (case split_line t of None \<Rightarrow> None | Some (l, rest) \<Rightarrow> Some (s @ l, rest))"
  by (induction s) (auto split: if_splits option.splits)

lemma ReadBytes_None:
  "split_line (b @ concat cs) = None \<Longrightarrow> ReadBytes b cs = (b @ concat cs, False, ([], []))"
proof (induction cs arbitrary: b)
  case Nil
  then show ?case by simp
next
  case (Cons c cs)
  have "split_line b = None"
    using Cons.prems split_line_append_Some [of b _ _ "concat (c # cs)"]
    by (cases "split_line b") auto
  then show ?case
    using Cons.IH [of "b @ c"] Cons.prems by simp
qed

lemma ReadBytes_Some:
  "split_line (b @ concat cs) = Some (l, rest) \<Longrightarrow>
   \<exists>rd. ReadBytes b cs = (l, True, rd) \<and> remaining rd = rest"
proof (induction cs arbitrary: b)
  case Nil
  then show ?case by (simp add: remaining_def)
next
  case (Cons c cs)
  show ?case
  proof (cases "split_line b")
    case None
    then show ?thesis
      using Cons.IH [of "b @ c"] Cons.prems by simp
  next
    case (Some p)
    obtain l' rest' where p: "p = (l', rest')" by (cases p)
    have "split_line (b @ concat (c # cs)) = Some (l', rest' @ concat (c # cs))"
      using Some p by (simp only: split_line_append_Some)
    then have "l' = l" "rest = rest' @ concat (c # cs)"
      using Cons.prems by simp_all
    then show ?thesis
      using Some p by (simp add: remaining_def)
  qed
qed

lemma ReadBytes_shorter:
  assumes "ReadBytes b cs = (l, True, rd)"
  shows "length (remaining rd) < length (remaining (b, cs))"
proof (cases "split_line (b @ concat cs)")
  case None
  then show ?thesis
    using assms ReadBytes_None [of b cs] by simp
next
  case (Some p)
  obtain l' rest where p: "p = (l', rest)" by (cases p)
  have "remaining rd = rest"
    using ReadBytes_Some [of b cs l' rest] Some p assms by auto
  moreover have "b @ concat cs = l' @ rest" "l' \<noteq> []"
    using split_line_Some [of "b @ concat cs" l' rest] Some p by simp_all
  ultimately show ?thesis
    by (simp add: remaining_def)
qed

subsection \<open>The stream processor\<close>

text \<open>
  The loop of step 4. It ends when a read returns an error (the partial line is dropped and
  no file name is set), or at the first line that starts with the switch marker: then the
  next line gives the file name, one more line is consumed, and line reading stops. The
  result is the file name (empty when none was set), the progress messages printed, and the
  reader as the loop leaves it.
\<close>

function stream_loop :: "Reader \<Rightarrow> string list \<Rightarrow> string \<times> string list \<times> Reader" where
  "stream_loop rd printed =
     (let (line, ok, rd1) = ReadBytes (fst rd) (snd rd)
      in if \<not> ok then ([], printed, rd1)
         else if HasPrefix line ''event: binary_start'' then
           (let (dataLine, ok2, rd2) = ReadBytes (fst rd1) (snd rd1);
                filename = TrimSpace (TrimPrefix dataLine ''data:'');
                (blank, ok3, rd3) = ReadBytes (fst rd2) (snd rd2)
            in (filename, printed, rd3))
         else if HasPrefix line ''data:'' then
           (let msg = TrimSpace (TrimPrefix line ''data:'')
            in stream_loop rd1 (if msg \<noteq> [] then printed @ [msg] else printed))
         else stream_loop rd1 printed)"
  by pat_completeness auto
termination
proof (relation "measure (\<lambda>(rd, printed). length (remaining rd))")
  show "wf (measure (\<lambda>(rd, printed). length (remaining rd)))"
    by simp
next
  fix rd :: Reader and printed :: "string list" and x line y ok rd1 msg
  assume "x = ReadBytes (fst rd) (snd rd)" "(line, y) = x" "(ok, rd1) = y" "\<not> \<not> ok"
  then have "ReadBytes (fst rd) (snd rd) = (line, True, rd1)"
    by simp
  from ReadBytes_shorter [OF this]
  show "((rd1, if msg \<noteq> [] then printed @ [msg] else printed), rd, printed)
          \<in> measure (\<lambda>(rd, printed). length (remaining rd))"
    by simp
next
  fix rd :: Reader and printed :: "string list" and x line y ok rd1
  assume "x = ReadBytes (fst rd) (snd rd)" "(line, y) = x" "(ok, rd1) = y" "\<not> \<not> ok"
  then have "ReadBytes (fst rd) (snd rd) = (line, True, rd1)"
    by simp
  from ReadBytes_shorter [OF this]
  show "((rd1, printed), rd, printed) \<in> measure (\<lambda>(rd, printed). length (remaining rd))"
    by simp
qed

declare stream_loop.simps [simp del]

subsection \<open>The artifact sink\<close>

text \<open>
  \<^verbatim>\<open>reader.WriteTo(outFile)\<close> writes the reader's buffer first and then everything the
  connection still delivers. The local file accepts every write, so the only error
  \<^verbatim>\<open>WriteTo\<close> can return is the connection's.
\<close>

definition WriteTo :: "Reader \<Rightarrow> string" where
  "WriteTo rd = fst rd @ concat (snd rd)"

text \<open>How a client run ends, by the message it prints last.\<close>

datatype outcome =
    ServerError nat
  | NoBinary
  | CreateFailed string
  | Interrupted string
  | Saved string nat

text \<open>
  What a client run leaves behind: the progress messages it printed, the name of the file
  it created (if any), the bytes it wrote to that file, and how it ended.
\<close>

record ClientRun =
  printed :: "string list"
  created :: "string option"
  written :: string
  outcome :: outcome

text \<open>
  Steps 4 and 5 on a response with status 200. \<open>can_create\<close> tells for which names
  \<^verbatim>\<open>os.Create\<close> succeeds; when it fails the client exits. A connection that ended with an
  error returns it on every later read, so \<^verbatim>\<open>WriteTo\<close> reports it even when the loop has
  met it before.
\<close>

definition receive :: "(string \<Rightarrow> bool) \<Rightarrow> conn_end \<Rightarrow> string list \<Rightarrow> ClientRun" where
  "receive can_create ending chunks =
     (let (filename, msgs, rd) = stream_loop ([], chunks) []
      in if filename \<noteq> [] then
           (if \<not> can_create filename then
              \<lparr>printed = msgs, created = None, written = [], outcome = CreateFailed filename\<rparr>
            else
              \<lparr>printed = msgs, created = Some filename, written = WriteTo rd,
               outcome = (if ending = Broken then Interrupted filename
                          else Saved filename (length (WriteTo rd)))\<rparr>)
         else \<lparr>printed = msgs, created = None, written = [], outcome = NoBinary\<rparr>)"

text \<open>Step 3: a response whose status is not 200 ends the client before any parsing.\<close>

definition handle_response ::
  "(string \<Rightarrow> bool) \<Rightarrow> nat \<Rightarrow> conn_end \<Rightarrow> string list \<Rightarrow> ClientRun" where
  "handle_response can_create code ending chunks =
     (if code \<noteq> 200 then
        \<lparr>printed = [], created = None, written = [], outcome = ServerError code\<rparr>
      else receive can_create ending chunks)"

section \<open>The wire format\<close>

text \<open>
  The two structured elements of the response stream, as the server writes them: a
  progress event carrying a message, and the switch signal carrying the artifact's name.
\<close>

definition progress_event :: "string \<Rightarrow> string" where
  "progress_event msg = ''data: '' @ msg @ [NL, NL]"

definition switch_signal :: "string \<Rightarrow> string" where
  "switch_signal name = ''event: binary_start'' @ [NL] @ ''data: '' @ name @ [NL, NL]"

definition progress_events :: "string list \<Rightarrow> string" where
  "progress_events ms = concat (map progress_event ms)"

text \<open>
  The body of a streamed response as the specification describes it: zero or more
  progress events, none of whose messages contains a line terminator, then either nothing,
  or one switch signal, whose name contains no line terminator, followed by raw bytes of
  the artifact and nothing else. \<open>file\<close> is the content of the built file when it can be
  opened; the raw bytes are all of it or a prefix (a transfer that stopped).
\<close>

definition stream_form :: "string option \<Rightarrow> string \<Rightarrow> bool" where
  "stream_form file b =
     (\<exists>ms. list_all (\<lambda>m. NL \<notin> set m) ms \<and>
        (b = progress_events ms \<or>
         (\<exists>name bytes n. file = Some bytes \<and> NL \<notin> set name \<and>
            b = progress_events ms @ switch_signal name @ take n bytes)))"

text \<open>
  Progress events only; when \<open>c\<close> holds, no message contains a line terminator, so every
  event is two lines: the \<^verbatim>\<open>data:\<close> line and the blank line.
\<close>

definition progress_only :: "bool \<Rightarrow> string \<Rightarrow> bool" where
  "progress_only c b =
     (\<exists>ms. b = progress_events ms \<and> (c \<longrightarrow> list_all (\<lambda>m. NL \<notin> set m) ms))"

text \<open>
  The body of a streamed response of the build server in world \<open>e\<close>: progress events, then
  either nothing, or the switch signal naming \<^verbatim>\<open>app\<close> or \<^verbatim>\<open>app.exe\<close> followed by what
  \<^verbatim>\<open>io.Copy\<close> wrote of the built file.
\<close>

definition stream_shape :: "bool \<Rightarrow> World \<Rightarrow> string \<Rightarrow> bool" where
  "stream_shape c e b =
     (\<exists>ms. (c \<longrightarrow> list_all (\<lambda>m. NL \<notin> set m) ms) \<and>
        (b = progress_events ms \<or>
         (\<exists>name bytes. (name = ''app'' \<or> name = ''app.exe'') \<and> Open_file e = Some bytes \<and>
            b = progress_events ms @ switch_signal name @ io_Copy (copy_error_after e) bytes)))"

text \<open>A request passes the pre-flight checks (steps 1 to 3) and is answered by a stream.\<close>

definition auth_fails :: "World \<Rightarrow> Request \<Rightarrow> bool" where
  "auth_fails e r = (AUTH_TOKEN e \<noteq> [] \<and> X_Billder_Token r \<noteq> AUTH_TOKEN e)"

definition accepted :: "World \<Rightarrow> Request \<Rightarrow> bool" where
  "accepted e r = (Method r = ''POST'' \<and> \<not> auth_fails e r \<and> is_flusher e)"

text \<open>
  A successful build: the request passes the pre-flight checks, its target OS is
  supported, and every step up to opening the built file succeeds.
\<close>

definition succeeds :: "World \<Rightarrow> Request \<Rightarrow> bool" where
  "succeeds e r =
     (accepted e r
      \<and> (case Decode r of None \<Rightarrow> False
          | Some p \<Rightarrow> TargetOS p = ''linux'' \<or> TargetOS p = ''windows'')
      \<and> MkdirTemp e \<noteq> None \<and> snd (git_clone e) \<and> ReadDir e \<noteq> [] \<and> snd (go_build e)
      \<and> Stat_size e \<noteq> None \<and> Open_file e \<noteq> None)"

text \<open>
  The artifact name as claim C10 states it, by target OS. Lemma \<open>Base_outputBinary\<close> below
  shows that it is what the handler computes, \<^verbatim>\<open>filepath.Base(outputBinary)\<close>, for every
  temporary directory.
\<close>

definition artifact_name :: "RequestPayload \<Rightarrow> string" where
  "artifact_name p = (if TargetOS p = ''windows'' then ''app.exe'' else ''app'')"

text \<open>The message of the progress event that reports a failed clone or compile stage.\<close>

definition failure_message :: "World \<Rightarrow> string" where
  "failure_message e =
     (if \<not> snd (git_clone e) then ''Error: Git clone failed. Is the URL correct?''
      else if ReadDir e = [] then ''Error: Repository is empty.''
      else ''Error: Compilation failed.'')"

text \<open>No field of the payload contains a line terminator.\<close>

definition clean_payload :: "RequestPayload \<Rightarrow> bool" where
  "clean_payload p = (NL \<notin> set (RepoURL p) \<and> NL \<notin> set (TargetOS p) \<and> NL \<notin> set (TargetArch p))"

text \<open>The same of a request: its body does not decode, or the decoded payload has none.\<close>

definition clean_request :: "Request \<Rightarrow> bool" where
  "clean_request r = (case Decode r of None \<Rightarrow> True | Some p \<Rightarrow> clean_payload p)"

text \<open>A byte sequence that is exactly one terminated line.\<close>

definition is_line :: "string \<Rightarrow> bool" where
  "is_line l = (split_line l = Some (l, []))"

text \<open>A byte sequence that is empty or ends with a line terminator: a run of whole lines.\<close>

definition complete_lines :: "string \<Rightarrow> bool" where
  "complete_lines s = (s = [] \<or> last s = NL)"

text \<open>Some terminated line of the byte sequence starts with the switch marker.\<close>

function has_switch :: "string \<Rightarrow> bool" where
  "has_switch s =
     (case split_line s of
        None \<Rightarrow> False
      | Some (l, rest) \<Rightarrow> HasPrefix l ''event: binary_start'' \<or> has_switch rest)"
  by pat_completeness auto
termination
proof (relation "measure length")
  show "wf (measure length)" by simp
next
  fix s :: string and p l rest
  assume "split_line s = Some p" "(l, rest) = p"
  then have "s = l @ rest \<and> l \<noteq> []"
    using split_line_Some [of s l rest] by simp
  then show "(rest, s) \<in> measure length"
    by auto
qed

declare has_switch.simps [simp del]

section \<open>Example inputs\<close>

text \<open>
  A world in which every step succeeds and no shared secret is configured, and the request
  of the specification's scenario. The artifact starts with a line terminator.
\<close>

definition demo_world :: World where
  "demo_world =
     \<lparr>AUTH_TOKEN = [], Environ = [''PATH=/usr/bin''], is_flusher = True,
      MkdirTemp = Some ''/tmp/billder-1'', git_clone = ([], True), ReadDir = [''main.go''],
      go_mod_tidy = ([], True), go_build = ([], True), Stat_size = Some 10,
      Open_file = Some (NL # ''ELF-bytes''), copy_error_after = None\<rparr>"

definition demo_payload :: RequestPayload where
  "demo_payload = \<lparr>RepoURL = ''example.org/demo'', TargetOS = ''linux'', TargetArch = ''amd64''\<rparr>"

definition demo_request :: Request where
  "demo_request = \<lparr>Method = ''POST'', X_Billder_Token = [], Decode = Some demo_payload\<rparr>"

text \<open>The same world, except that \<^verbatim>\<open>go mod tidy\<close> fails.\<close>

definition tidy_fails_world :: World where
  "tidy_fails_world = demo_world\<lparr>go_mod_tidy := (''go: updates to go.mod needed'', False)\<rparr>"

text \<open>
  A world in which the clone fails, and a request whose \<^verbatim>\<open>repo_url\<close> contains line
  terminators followed by the text of a switch signal (in JSON:
  \<^verbatim>\<open>"x\nevent: binary_start\ndata: pwn\n\n"\<close>).
\<close>

definition clone_fails_world :: World where
  "clone_fails_world = demo_world\<lparr>git_clone := (''fatal: unable to access'', False)\<rparr>"

definition injected_request :: Request where
  "injected_request =
     demo_request\<lparr>Decode := Some (demo_payload
       \<lparr>RepoURL := ''x'' @ [NL] @ ''event: binary_start'' @ [NL] @ ''data: pwn'' @ [NL, NL]\<rparr>)\<rparr>"

text \<open>
  Two response streams as the client may receive them, each cut into two chunks. The first
  ends without a switch signal, in the middle of a line. In the second the first chunk
  reaches past the blank line that ends the switch signal, into an artifact that starts with
  a line terminator.
\<close>

definition failed_stream :: "string list" where
  "failed_stream =
     [''data: Step 1/3: Cloning repository...'' @ [NL, NL] @ ''data: Error: Git clo'',
      ''ne failed. Is the URL correct?'' @ [NL, NL] @ ''event: binary_st'']"

definition overread_stream :: "string list" where
  "overread_stream =
     [''data: Step 3/3: Compiling...'' @ [NL, NL] @ ''event: binary_start'' @ [NL]
        @ ''data: app'' @ [NL, NL] @ [NL] @ ''ELF'',
      ''-bytes'']"

section \<open>Properties of the library functions\<close>

subsection \<open>The base name of the output path\<close>

lemma split_on_nonempty: "split_on c s \<noteq> []"
  by (induction s) auto

lemma split_on_append: "split_on c (s @ c # u) = split_on c s @ split_on c u"
  by (induction s) (auto simp: split_on_nonempty)

lemma path_elems_append_app: "path_elems (t @ ''/app'') = path_elems t @ [''app'']"
  using split_on_append [of "CHR ''/''" t "''app''"] by (simp add: path_elems_def)

lemma join_slash_snoc:
  "join_slash (xs @ [a]) = (if xs = [] then a else join_slash xs @ ''/'' @ a)"
  by (induction xs rule: join_slash.induct) auto

lemma Clean_ends_with_app:
  "\<exists>X. Clean (t @ ''/app'') = X @ ''app'' \<and> (X = [] \<or> last X = CHR ''/'')"
proof -
  define rooted where "rooted = (hd (t @ ''/app'') = CHR ''/'')"
  define st where "st = foldl (clean_step rooted) [] (path_elems t)"
  have st': "foldl (clean_step rooted) [] (path_elems (t @ ''/app'')) = ''app'' # st"
    by (simp add: path_elems_append_app st_def clean_step_def)
  have out: "Clean (t @ ''/app'')
      = (if rooted then ''/'' else []) @ join_slash (rev st @ [''app''])"
    by (simp add: Clean_def Let_def rooted_def [symmetric] st' join_slash_snoc del: foldl_append)
  show ?thesis
  proof (cases "st = []")
    case True
    then show ?thesis
      using out by (cases rooted) auto
  next
    case False
    then have "Clean (t @ ''/app'')
        = ((if rooted then ''/'' else []) @ join_slash (rev st) @ ''/'') @ ''app''"
      using out by (simp add: join_slash_snoc)
    then show ?thesis
      by (intro exI [of _ "(if rooted then ''/'' else []) @ join_slash (rev st) @ ''/''"]) simp
  qed
qed

lemma Join_ends_with_app:
  "\<exists>X. Join t ''app'' = X @ ''app'' \<and> (X = [] \<or> last X = CHR ''/'')"
proof (cases "t = []")
  case True
  have "Clean ''app'' = ''app''"
    by (simp add: Clean_def path_elems_def clean_step_def)
  then show ?thesis
    using True by (simp add: Join_def)
next
  case False
  then show ?thesis
    using Clean_ends_with_app [of t] by (simp add: Join_def)
qed

lemma Base_last_element:
  assumes "s \<noteq> []" "CHR ''/'' \<notin> set s" "X = [] \<or> last X = CHR ''/''"
  shows "Base (X @ s) = s"
proof -
  have "last s \<noteq> CHR ''/''"
    using assms(1,2) last_in_set by metis
  then have dw: "dropWhile (\<lambda>c. c = CHR ''/'') (rev s @ rev X) = rev s @ rev X"
    using assms(1) by (cases "rev s") (auto simp: last_rev [symmetric] hd_rev)
  have "takeWhile (\<lambda>c. c \<noteq> CHR ''/'') (rev X) = []"
    using assms(3) by (cases "rev X") (auto simp: hd_rev [symmetric])
  then have tw: "takeWhile (\<lambda>c. c \<noteq> CHR ''/'') (rev s @ rev X) = rev s"
    using assms(2) by (subst takeWhile_append2) auto
  show ?thesis
    using assms(1) by (simp add: Base_def Let_def dw tw)
qed

lemma Base_outputBinary:
  "Base (outputBinary t p) = (if TargetOS p = ''windows'' then ''app.exe'' else ''app'')"
proof -
  obtain X where X: "Join t ''app'' = X @ ''app''" "X = [] \<or> last X = CHR ''/''"
    using Join_ends_with_app by blast
  have "Base (X @ ''app'') = ''app''" "Base (X @ ''app.exe'') = ''app.exe''"
    using X(2) by (simp_all add: Base_last_element)
  then show ?thesis
    using X(1) by (simp add: outputBinary_def)
qed

subsection \<open>The formatted size has no line terminator\<close>

lemma digit_char_not_NL: "digit_char d \<noteq> NL" "NL \<noteq> digit_char d"
  by (simp_all add: NL_def)

lemma decimal_clean: "NL \<notin> set (decimal n)"
proof (induction n rule: decimal.induct)
  case (1 n)
  then show ?case
    by (subst decimal.simps) (simp add: digit_char_not_NL del: digit_char.simps)
qed

lemma fmt_size_mb_clean: "NL \<notin> set (fmt_size_mb n)"
proof -
  have "NL \<notin> set ''.''"
    by (simp add: NL_def)
  then show ?thesis
    by (simp add: fmt_size_mb_def Let_def decimal_clean digit_char_not_NL del: digit_char.simps)
qed

section \<open>Properties of the build server\<close>

subsection \<open>What each step changes\<close>

lemma sendProgress_fields [simp]:
  "body (sendProgress m w) = body w @ progress_event m"
  "status (sendProgress m w) = status w"
  "cmds (sendProgress m w) = cmds w"
  "log (sendProgress m w) = log w"
  "removed (sendProgress m w) = removed w"
  "panicked (sendProgress m w) = panicked w"
  "headers (sendProgress m w) = headers w"
  by (simp_all add: sendProgress_def progress_event_def)

lemma send_binary_start_fields [simp]:
  "body (send_binary_start n w) = body w @ switch_signal n"
  "status (send_binary_start n w) = status w"
  "cmds (send_binary_start n w) = cmds w"
  "log (send_binary_start n w) = log w"
  "removed (send_binary_start n w) = removed w"
  "panicked (send_binary_start n w) = panicked w"
  "headers (send_binary_start n w) = headers w"
  by (simp_all add: send_binary_start_def switch_signal_def)

lemma log_line_fields [simp]:
  "body (log_line l w) = body w"
  "status (log_line l w) = status w"
  "cmds (log_line l w) = cmds w"
  "log (log_line l w) = log w @ [l]"
  "removed (log_line l w) = removed w"
  "panicked (log_line l w) = panicked w"
  "headers (log_line l w) = headers w"
  by (simp_all add: log_line_def)

lemma run_cmd_fields [simp]:
  "body (run_cmd c w) = body w"
  "status (run_cmd c w) = status w"
  "cmds (run_cmd c w) = cmds w @ [c]"
  "log (run_cmd c w) = log w"
  "removed (run_cmd c w) = removed w"
  "panicked (run_cmd c w) = panicked w"
  "headers (run_cmd c w) = headers w"
  by (simp_all add: run_cmd_def)

lemma RemoveAll_fields [simp]:
  "body (RemoveAll d w) = body w"
  "status (RemoveAll d w) = status w"
  "cmds (RemoveAll d w) = cmds w"
  "log (RemoveAll d w) = log w"
  "removed (RemoveAll d w) = removed w @ [d]"
  "panicked (RemoveAll d w) = panicked w"
  "headers (RemoveAll d w) = headers w"
  by (simp_all add: RemoveAll_def)

lemma set_header_fields [simp]:
  "body (set_header k v w) = body w"
  "status (set_header k v w) = status w"
  "cmds (set_header k v w) = cmds w"
  "log (set_header k v w) = log w"
  "removed (set_header k v w) = removed w"
  "panicked (set_header k v w) = panicked w"
  by (simp_all add: set_header_def)

lemma http_Error_fields [simp]:
  "body (http_Error m c w) = body w @ m @ [NL]"
  "status (http_Error m c w) = c"
  "cmds (http_Error m c w) = cmds w"
  "log (http_Error m c w) = log w"
  "removed (http_Error m c w) = removed w"
  "panicked (http_Error m c w) = panicked w"
  by (simp_all add: http_Error_def)

lemma start_fields [simp]:
  "body start = []" "status start = 200" "cmds start = []" "log start = []"
  "removed start = []" "panicked start = False" "headers start = []"
  by (simp_all add: start_def)

lemma handover_frame:
  "status (handover e t p w) = status w"
  "cmds (handover e t p w) = cmds w"
  "removed (handover e t p w) = removed w"
  by (simp_all add: handover_def Let_def split: option.splits)

lemma compile_frame:
  "status (compile e env t p w) = status w"
  "removed (compile e env t p w) = removed w"
  "cmds (compile e env t p w) =
     cmds w @ [\<lparr>prog = ''go'', args = buildArgs t p, dir = Join t ''src'', cmd_env = Some env\<rparr>]"
  by (simp_all add: compile_def Let_def handover_frame)

lemma tidy_frame:
  "status (tidy e env t p w) = status w"
  "removed (tidy e env t p w) = removed w"
  "cmds (tidy e env t p w) =
     cmds w @ [\<lparr>prog = ''go'', args = [''mod'', ''tidy''], dir = Join t ''src'', cmd_env = Some env\<rparr>,
               \<lparr>prog = ''go'', args = buildArgs t p, dir = Join t ''src'', cmd_env = Some env\<rparr>]"
  by (simp_all add: tidy_def Let_def compile_frame)

lemma clone_frame:
  "status (clone e env t p w) = status w"
  "removed (clone e env t p w) = removed w"
  "cmds (clone e env t p w) =
     cmds w @ \<lparr>prog = ''git'', args = [''clone'', ''https://'' @ RepoURL p, Join t ''src''],
               dir = [], cmd_env = None\<rparr>
       # (if snd (git_clone e) \<and> ReadDir e \<noteq> [] then
            [\<lparr>prog = ''go'', args = [''mod'', ''tidy''], dir = Join t ''src'', cmd_env = Some env\<rparr>,
             \<lparr>prog = ''go'', args = buildArgs t p, dir = Join t ''src'', cmd_env = Some env\<rparr>]
          else [])"
  by (simp_all add: clone_def Let_def tidy_frame)

lemma build_status: "status (build e d w) = status w"
  by (simp add: build_def Let_def clone_frame split: option.splits)

lemma buildHandler_status:
  "status (buildHandler e r) =
     (if Method r \<noteq> ''POST'' then 405 else if auth_fails e r then 401
      else if \<not> is_flusher e then 500 else 200)"
  by (simp add: buildHandler_def Let_def auth_fails_def build_status split: option.splits)

lemma build_no_pipeline:
  assumes "TargetOS p \<noteq> ''linux''" "TargetOS p \<noteq> ''windows''"
  shows "cmds (build e p w) = cmds w" "removed (build e p w) = removed w"
    "body (build e p w) = body w
       @ progress_event (''Starting job for '' @ RepoURL p @ '' ['' @ TargetOS p @ ''/''
                          @ (if TargetArch p = [] then ''amd64'' else TargetArch p) @ '']'')
       @ progress_event ''Error: Unsupported OS. Only 'linux' and 'windows' supported.''"
  using assms by (simp_all add: build_def Let_def compiler_env_def)

subsection \<open>Authentication (claim C9)\<close>

text \<open>
  Claim C9, as amended. The handler checks the method before the shared secret, so the
  equivalence holds for POST requests: a POST request is answered 401 exactly when
  \<^verbatim>\<open>AUTH_TOKEN\<close> is non-empty and the \<^verbatim>\<open>X-Billder-Token\<close> header differs from it. When
  \<^verbatim>\<open>AUTH_TOKEN\<close> is empty or unset, no request at all is answered 401, whatever header it
  carries.
\<close>

theorem unauthorized_iff_token_mismatch_on_post:
  "(Method r = ''POST'' \<longrightarrow>
      (status (buildHandler e r) = 401) =
      (AUTH_TOKEN e \<noteq> [] \<and> X_Billder_Token r \<noteq> AUTH_TOKEN e))
   \<and> (AUTH_TOKEN e = [] \<longrightarrow> status (buildHandler e r) \<noteq> 401)"
  by (simp add: buildHandler_status auth_fails_def)

text \<open>
  The theorem at a POST request without token against a server whose secret is set
  (answered 401), and at a request carrying a token against a server without secret.
\<close>

theorem unauthorized_iff_token_mismatch_on_post_witness:
  "Method demo_request = ''POST''
   \<and> AUTH_TOKEN (demo_world\<lparr>AUTH_TOKEN := ''s3cret''\<rparr>) \<noteq> []
   \<and> X_Billder_Token demo_request \<noteq> AUTH_TOKEN (demo_world\<lparr>AUTH_TOKEN := ''s3cret''\<rparr>)
   \<and> status (buildHandler (demo_world\<lparr>AUTH_TOKEN := ''s3cret''\<rparr>) demo_request) = 401
   \<and> AUTH_TOKEN demo_world = []
   \<and> status (buildHandler demo_world (demo_request\<lparr>X_Billder_Token := ''anything''\<rparr>)) \<noteq> 401"
  using unauthorized_iff_token_mismatch_on_post [of demo_request "demo_world\<lparr>AUTH_TOKEN := ''s3cret''\<rparr>"]
    unauthorized_iff_token_mismatch_on_post [of "demo_request\<lparr>X_Billder_Token := ''anything''\<rparr>" demo_world]
  by (simp add: demo_world_def demo_request_def)

text \<open>
  Claim C9 as stated fails for a request that is not a POST: with the secret set and a wrong
  token, a GET request is answered 405, not 401.
\<close>

theorem unauthorized_iff_counterexample:
  "\<not> ((status (buildHandler (demo_world\<lparr>AUTH_TOKEN := ''s3cret''\<rparr>)
                  (demo_request\<lparr>Method := ''GET'', X_Billder_Token := ''wrong''\<rparr>)) = 401) =
       (AUTH_TOKEN (demo_world\<lparr>AUTH_TOKEN := ''s3cret''\<rparr>) \<noteq> []
        \<and> X_Billder_Token (demo_request\<lparr>Method := ''GET'', X_Billder_Token := ''wrong''\<rparr>)
            \<noteq> AUTH_TOKEN (demo_world\<lparr>AUTH_TOKEN := ''s3cret''\<rparr>)))"
  by (simp add: buildHandler_status demo_world_def demo_request_def)

subsection \<open>Rejections (claim C3)\<close>

text \<open>
  Claim C3, as amended. A request with a bad method is answered 405 and one that fails
  authentication 401, each with a one-line plain-text body and before any streaming. A
  request whose body does not decode is not answered with an HTTP error status: when the
  writer can stream, the status is 200 and the body is the single progress event
  \<^verbatim>\<open>Error: Invalid JSON payload\<close> (a writer that cannot stream gives 500). In all these
  cases no subprocess is started and no workspace exists to remove.
\<close>

theorem rejection_paths:
  assumes "Method r \<noteq> ''POST'' \<or> auth_fails e r \<or> Decode r = None"
  shows "cmds (buildHandler e r) = [] \<and> removed (buildHandler e r) = []
    \<and> status (buildHandler e r) =
        (if Method r \<noteq> ''POST'' then 405 else if auth_fails e r then 401
         else if \<not> is_flusher e then 500 else 200)
    \<and> body (buildHandler e r) =
        (if Method r \<noteq> ''POST'' then ''Method Not Allowed'' @ [NL]
         else if auth_fails e r then ''Unauthorized'' @ [NL]
         else if \<not> is_flusher e then ''Streaming unsupported'' @ [NL]
         else progress_event ''Error: Invalid JSON payload'')"
  using assms by (auto simp: buildHandler_def Let_def auth_fails_def)

text \<open>The theorem at a POST request with an undecodable body, and at a GET request.\<close>

theorem rejection_paths_witness:
  "Decode (demo_request\<lparr>Decode := None\<rparr>) = None
   \<and> cmds (buildHandler demo_world (demo_request\<lparr>Decode := None\<rparr>)) = []
   \<and> status (buildHandler demo_world (demo_request\<lparr>Decode := None\<rparr>)) = 200
   \<and> body (buildHandler demo_world (demo_request\<lparr>Decode := None\<rparr>))
       = progress_event ''Error: Invalid JSON payload''
   \<and> Method (demo_request\<lparr>Method := ''GET''\<rparr>) \<noteq> ''POST''
   \<and> cmds (buildHandler demo_world (demo_request\<lparr>Method := ''GET''\<rparr>)) = []
   \<and> status (buildHandler demo_world (demo_request\<lparr>Method := ''GET''\<rparr>)) = 405"
  using rejection_paths [of "demo_request\<lparr>Decode := None\<rparr>" demo_world]
    rejection_paths [of "demo_request\<lparr>Method := ''GET''\<rparr>" demo_world]
  by (simp add: demo_world_def demo_request_def auth_fails_def)

text \<open>
  Claim C3 as stated fails for a malformed request: a POST request whose body does not
  decode gets none of the statuses 400, 401, 405, 500; the error travels inside the stream.
\<close>

theorem malformed_body_counterexample:
  "Decode (demo_request\<lparr>Decode := None\<rparr>) = None
   \<and> status (buildHandler demo_world (demo_request\<lparr>Decode := None\<rparr>)) \<notin> {400, 401, 405, 500}
   \<and> body (buildHandler demo_world (demo_request\<lparr>Decode := None\<rparr>))
       = progress_event ''Error: Invalid JSON payload''"
  by (simp add: buildHandler_def Let_def demo_world_def demo_request_def)

subsection \<open>Validation of the payload (claim C4)\<close>

text \<open>
  Claim C4, as amended. A request whose target OS is missing (empty) or is neither
  \<^verbatim>\<open>linux\<close> nor \<^verbatim>\<open>windows\<close> starts no subprocess and creates no workspace; when it
  passed the pre-flight checks, its stream is the start event followed by the
  unsupported-OS event, under status 200. The handler has no check of the source
  reference.
\<close>

theorem unsupported_os_rejected:
  assumes "Decode r = Some p" "TargetOS p \<noteq> ''linux''" "TargetOS p \<noteq> ''windows''"
  shows "cmds (buildHandler e r) = [] \<and> removed (buildHandler e r) = []
    \<and> (accepted e r \<longrightarrow>
         status (buildHandler e r) = 200
         \<and> body (buildHandler e r) =
             progress_event (''Starting job for '' @ RepoURL p @ '' ['' @ TargetOS p @ ''/''
                              @ (if TargetArch p = [] then ''amd64'' else TargetArch p) @ '']'')
             @ progress_event ''Error: Unsupported OS. Only 'linux' and 'windows' supported.'')"
  using assms
  by (simp add: buildHandler_def Let_def accepted_def auth_fails_def build_no_pipeline build_status)

text \<open>The theorem at the demo request with its target OS removed.\<close>

theorem unsupported_os_rejected_witness:
  "Decode (demo_request\<lparr>Decode := Some (demo_payload\<lparr>TargetOS := []\<rparr>)\<rparr>)
     = Some (demo_payload\<lparr>TargetOS := []\<rparr>)
   \<and> TargetOS (demo_payload\<lparr>TargetOS := []\<rparr>) \<noteq> ''linux''
   \<and> TargetOS (demo_payload\<lparr>TargetOS := []\<rparr>) \<noteq> ''windows''
   \<and> accepted demo_world (demo_request\<lparr>Decode := Some (demo_payload\<lparr>TargetOS := []\<rparr>)\<rparr>)
   \<and> cmds (buildHandler demo_world (demo_request\<lparr>Decode := Some (demo_payload\<lparr>TargetOS := []\<rparr>)\<rparr>)) = []
   \<and> body (buildHandler demo_world (demo_request\<lparr>Decode := Some (demo_payload\<lparr>TargetOS := []\<rparr>)\<rparr>)) =
        progress_event ''Starting job for example.org/demo [/amd64]''
        @ progress_event ''Error: Unsupported OS. Only 'linux' and 'windows' supported.''"
  using unsupported_os_rejected [of "demo_request\<lparr>Decode := Some (demo_payload\<lparr>TargetOS := []\<rparr>)\<rparr>"
      "demo_payload\<lparr>TargetOS := []\<rparr>" demo_world]
  by (simp add: demo_world_def demo_request_def demo_payload_def accepted_def auth_fails_def)

text \<open>
  Claim C4 as stated fails for a missing source reference: with an empty \<^verbatim>\<open>repo_url\<close> the
  handler creates the workspace and runs \<^verbatim>\<open>git clone https://\<close>; here the clone fails,
  and the failure is what the stream reports.
\<close>

theorem missing_repo_counterexample:
  "RepoURL (demo_payload\<lparr>RepoURL := []\<rparr>) = []
   \<and> map args (cmds (buildHandler clone_fails_world
          (demo_request\<lparr>Decode := Some (demo_payload\<lparr>RepoURL := []\<rparr>)\<rparr>)))
      = [[''clone'', ''https://'', Join ''/tmp/billder-1'' ''src'']]
   \<and> removed (buildHandler clone_fails_world
          (demo_request\<lparr>Decode := Some (demo_payload\<lparr>RepoURL := []\<rparr>)\<rparr>))
      = [''/tmp/billder-1'']
   \<and> body (buildHandler clone_fails_world
          (demo_request\<lparr>Decode := Some (demo_payload\<lparr>RepoURL := []\<rparr>)\<rparr>))
      = progress_event ''Starting job for  [linux/amd64]''
        @ progress_event ''Step 1/3: Cloning repository...''
        @ progress_event ''Error: Git clone failed. Is the URL correct?''"
  by (simp add: buildHandler_def build_def clone_def Let_def compiler_env_def
      clone_fails_world_def demo_world_def demo_request_def demo_payload_def)

lemma buildHandler_accepted:
  assumes "accepted e r"
  shows "buildHandler e r =
    (case Decode r of
       None \<Rightarrow> sendProgress ''Error: Invalid JSON payload''
                 (set_header ''Connection'' ''keep-alive''
                    (set_header ''Cache-Control'' ''no-cache''
                       (set_header ''Content-Type'' ''text/event-stream'' start)))
     | Some decoded \<Rightarrow> build e decoded
                 (set_header ''Connection'' ''keep-alive''
                    (set_header ''Cache-Control'' ''no-cache''
                       (set_header ''Content-Type'' ''text/event-stream'' start))))"
  using assms by (auto simp: buildHandler_def accepted_def auth_fails_def Let_def)

subsection \<open>The shape of the response stream\<close>

lemma progress_only_Nil: "progress_only c []"
  unfolding progress_only_def by (intro exI [of _ "[]"]) (simp add: progress_events_def)

lemma progress_only_send:
  assumes "progress_only c (body w)" "c \<Longrightarrow> NL \<notin> set m"
  shows "progress_only c (body (sendProgress m w))"
proof -
  obtain ms where ms: "body w = progress_events ms" "c \<longrightarrow> list_all (\<lambda>m. NL \<notin> set m) ms"
    using assms(1) unfolding progress_only_def by blast
  show ?thesis
    unfolding progress_only_def
    by (intro exI [of _ "ms @ [m]"]) (use ms assms(2) in \<open>auto simp: progress_events_def\<close>)
qed

lemma progress_only_log [simp]: "progress_only c (body (log_line l w)) = progress_only c (body w)"
  by simp

lemma progress_only_run [simp]: "progress_only c (body (run_cmd x w)) = progress_only c (body w)"
  by simp

lemma stream_shape_progress: "progress_only c b \<Longrightarrow> stream_shape c e b"
  unfolding progress_only_def stream_shape_def by blast

lemma handover_shape:
  assumes "progress_only c (body w)"
  shows "stream_shape c e (body (handover e t p w))"
proof (cases "Stat_size e")
  case None
  then show ?thesis
    using assms by (simp add: handover_def stream_shape_progress)
next
  case (Some sz)
  let ?w2 = "sendProgress (''Build Successful! Artifact size: '' @ fmt_size_mb sz @ '' MB'')
               (log_line (BinaryBuilt (outputBinary t p) (fmt_size_mb sz)) w)"
  have w2: "progress_only c (body ?w2)"
    by (rule progress_only_send)
      (use assms in \<open>simp_all add: fmt_size_mb_clean [unfolded NL_def] NL_def\<close>)
  show ?thesis
  proof (cases "Open_file e")
    case None
    have "progress_only c (body (sendProgress ''Error: Could not open built artifact'' ?w2))"
      by (rule progress_only_send [OF w2]) (simp add: NL_def)
    then show ?thesis
      using Some None by (simp add: handover_def Let_def stream_shape_progress)
  next
    case (Some bytes)
    obtain ms where ms: "body ?w2 = progress_events ms" "c \<longrightarrow> list_all (\<lambda>m. NL \<notin> set m) ms"
      using w2 unfolding progress_only_def by blast
    have "body (handover e t p w)
        = progress_events ms @ switch_signal (Base (outputBinary t p))
          @ io_Copy (copy_error_after e) bytes"
      using \<open>Stat_size e = Some sz\<close> Some ms(1) by (simp add: handover_def Let_def)
    moreover have "Base (outputBinary t p) = ''app'' \<or> Base (outputBinary t p) = ''app.exe''"
      by (simp add: Base_outputBinary)
    ultimately show ?thesis
      unfolding stream_shape_def using ms(2) Some by blast
  qed
qed

lemma compile_shape:
  assumes "progress_only c (body w)"
  shows "stream_shape c e (body (compile e env t p w))"
proof -
  let ?w1 = "sendProgress ''Step 3/3: Compiling...'' w"
  have w1: "progress_only c (body ?w1)"
    by (rule progress_only_send [OF assms]) (simp add: NL_def)
  show ?thesis
  proof (cases "snd (go_build e)")
    case True
    then show ?thesis
      using handover_shape [of c _ e t p] w1 by (simp add: compile_def Let_def)
  next
    case False
    have "progress_only c (body (sendProgress ''Error: Compilation failed.'' ?w1))"
      by (rule progress_only_send [OF w1]) (simp add: NL_def)
    then show ?thesis
      using False by (simp add: compile_def Let_def stream_shape_progress)
  qed
qed

lemma tidy_shape:
  assumes "progress_only c (body w)"
  shows "stream_shape c e (body (tidy e env t p w))"
proof -
  have "progress_only c (body (sendProgress ''Step 2/3: Resolving dependencies...'' w))"
    by (rule progress_only_send [OF assms]) (simp add: NL_def)
  then show ?thesis
    using compile_shape [of c _ e env t p] by (simp add: tidy_def Let_def)
qed

lemma clone_shape:
  assumes "progress_only c (body w)"
  shows "stream_shape c e (body (clone e env t p w))"
proof -
  let ?w1 = "sendProgress ''Step 1/3: Cloning repository...'' w"
  have w1: "progress_only c (body ?w1)"
    by (rule progress_only_send [OF assms]) (simp add: NL_def)
  have f1: "progress_only c (body (sendProgress ''Error: Git clone failed. Is the URL correct?'' ?w1))"
    by (rule progress_only_send [OF w1]) (simp add: NL_def)
  have f2: "progress_only c (body (sendProgress ''Error: Repository is empty.'' ?w1))"
    by (rule progress_only_send [OF w1]) (simp add: NL_def)
  show ?thesis
    using f1 f2 tidy_shape [of c _ e env t p] w1
    by (simp add: clone_def Let_def stream_shape_progress)
qed

lemma build_shape:
  assumes "progress_only c (body w)" "c \<Longrightarrow> clean_payload d"
  shows "stream_shape c e (body (build e d w))"
proof -
  define payload where "payload = (if TargetArch d = [] then d\<lparr>TargetArch := ''amd64''\<rparr> else d)"
  have cp: "c \<Longrightarrow> clean_payload payload"
    using assms(2) by (auto simp: payload_def clean_payload_def NL_def)
  let ?w2 = "sendProgress (''Starting job for '' @ RepoURL payload @ '' ['' @ TargetOS payload
                            @ ''/'' @ TargetArch payload @ '']'') (log_line (Received d) w)"
  have w2: "progress_only c (body ?w2)"
    by (rule progress_only_send) (use assms(1) cp in \<open>auto simp: clean_payload_def NL_def\<close>)
  have f1: "progress_only c (body (sendProgress ''Error: Unsupported OS. Only 'linux' and 'windows' supported.'' ?w2))"
    by (rule progress_only_send [OF w2]) (simp add: NL_def)
  have f2: "progress_only c (body (sendProgress ''Error: Failed to create workspace'' ?w2))"
    by (rule progress_only_send [OF w2]) (simp add: NL_def)
  show ?thesis
    using f1 f2 clone_shape [of c ?w2 e _ _ payload] w2
    by (simp add: build_def Let_def payload_def [symmetric] stream_shape_progress
        split: option.splits)
qed

lemma buildHandler_shape:
  assumes "accepted e r" "c \<Longrightarrow> \<forall>p. Decode r = Some p \<longrightarrow> clean_payload p"
  shows "stream_shape c e (body (buildHandler e r))"
proof -
  let ?w = "set_header ''Connection'' ''keep-alive''
              (set_header ''Cache-Control'' ''no-cache''
                 (set_header ''Content-Type'' ''text/event-stream'' start))"
  have w: "progress_only c (body ?w)"
    by (simp add: progress_only_Nil)
  show ?thesis
  proof (cases "Decode r")
    case None
    have "progress_only c (body (sendProgress ''Error: Invalid JSON payload'' ?w))"
      by (rule progress_only_send [OF w]) (simp add: NL_def)
    then show ?thesis
      using None by (simp add: buildHandler_accepted [OF assms(1)] stream_shape_progress)
  next
    case (Some d)
    then have "stream_shape c e (body (build e d ?w))"
      using build_shape [OF w, of d e] assms(2) by simp
    then show ?thesis
      using Some by (simp add: buildHandler_accepted [OF assms(1)])
  qed
qed

subsection \<open>Dependency resolution (claim C7)\<close>

lemma build_ignores_tidy: "build (e\<lparr>go_mod_tidy := x\<rparr>) p w = build e p w"
proof -
  have 1: "handover (e\<lparr>go_mod_tidy := x\<rparr>) t q v = handover e t q v" for t q v
    by (simp add: handover_def Let_def split: option.splits)
  have 2: "compile (e\<lparr>go_mod_tidy := x\<rparr>) env t q v = compile e env t q v" for env t q v
    by (simp add: compile_def Let_def 1)
  have 3: "tidy (e\<lparr>go_mod_tidy := x\<rparr>) env t q v = tidy e env t q v" for env t q v
    by (simp add: tidy_def Let_def 2)
  have 4: "clone (e\<lparr>go_mod_tidy := x\<rparr>) env t q v = clone e env t q v" for env t q v
    by (simp add: clone_def Let_def 3)
  show ?thesis
    by (simp add: build_def Let_def 4 split: option.splits)
qed

lemma buildHandler_ignores_tidy:
  "buildHandler (e\<lparr>go_mod_tidy := x\<rparr>) r = buildHandler e r"
  by (simp add: buildHandler_def Let_def build_ignores_tidy split: option.splits)

lemma buildArgs_arch [simp]: "buildArgs t (p\<lparr>TargetArch := a\<rparr>) = buildArgs t p"
  by (simp add: buildArgs_def outputBinary_def)

lemma build_cmds:
  assumes "TargetOS p = ''linux'' \<or> TargetOS p = ''windows''" "MkdirTemp e = Some t"
    "snd (git_clone e)" "ReadDir e \<noteq> []"
  shows "map args (cmds (build e p w)) =
    map args (cmds w) @ [[''clone'', ''https://'' @ RepoURL p, Join t ''src''], [''mod'', ''tidy''], buildArgs t p]"
  using assms by (auto simp: build_def Let_def compiler_env_def clone_frame)

lemma finish_part_001_frame:
  "cmds (finish_part_001 e w) = cmds w" "log (finish_part_001 e w) = log w"
  by (simp_all add: finish_part_001_def Let_def split: option.splits)

lemma compile_part_001_frame:
  "cmds (compile_part_001 e env t p w) =
     cmds w @ [\<lparr>prog = ''go'', args = buildArgs t p, dir = Join t ''src'', cmd_env = Some env\<rparr>]"
  "l \<in> set (log w) \<Longrightarrow> l \<in> set (log (compile_part_001 e env t p w))"
  by (auto simp: compile_part_001_def Let_def finish_part_001_frame)

lemma tidy_part_001_frame:
  "map args (cmds (tidy_part_001 e env t p w)) = map args (cmds w) @ [[''mod'', ''tidy''], buildArgs t p]"
  "\<not> snd (go_mod_tidy e) \<Longrightarrow> TidyWarning (fst (go_mod_tidy e)) \<in> set (log (tidy_part_001 e env t p w))"
  by (auto simp: tidy_part_001_def Let_def compile_part_001_frame(1)
      intro!: compile_part_001_frame(2))

lemma workspace_part_001_tidy:
  assumes "MkdirTemp e = Some t" "snd (git_clone e)"
  shows "map args (cmds (workspace_part_001 e env p w)) =
      map args (cmds w) @ [[''clone'', ''https://'' @ RepoURL p, Join t ''src''], [''mod'', ''tidy''], buildArgs t p]"
    "\<not> snd (go_mod_tidy e) \<Longrightarrow> TidyWarning (fst (go_mod_tidy e)) \<in> set (log (workspace_part_001 e env p w))"
  using assms tidy_part_001_frame(2) [of e env t p]
  by (simp_all add: workspace_part_001_def clone_part_001_def Let_def tidy_part_001_frame(1))

lemma buildHandler_part_001_tidy:
  assumes "is_flusher e" "Decode r = Some p" "TargetOS p = ''linux'' \<or> TargetOS p = ''windows''"
    "MkdirTemp e = Some t" "snd (git_clone e)"
  shows "map args (cmds (buildHandler_part_001 e r)) =
      [[''clone'', ''https://'' @ RepoURL p, Join t ''src''], [''mod'', ''tidy''], buildArgs t p]"
    "\<not> snd (go_mod_tidy e) \<Longrightarrow> TidyWarning (fst (go_mod_tidy e)) \<in> set (log (buildHandler_part_001 e r))"
  using assms workspace_part_001_tidy [OF assms(4,5)]
  by (auto simp: buildHandler_part_001_def Let_def)

text \<open>
  Claim C7, as amended. When \<^verbatim>\<open>go mod tidy\<close> fails in a request that got as far as the
  clone, the pipeline goes on: both handlers start \<^verbatim>\<open>go build\<close> right after it. The
  earlier handler (part_001) logs the failure as a tidy warning. The handler of
  cmd/billder discards the error: its whole run, log included, is the one it would have
  made had \<^verbatim>\<open>go mod tidy\<close> succeeded.
\<close>

theorem tidy_failure_continues:
  assumes "\<not> snd (go_mod_tidy e)"
    and "accepted e r" "Decode r = Some p" "TargetOS p = ''linux'' \<or> TargetOS p = ''windows''"
    and "MkdirTemp e = Some t" "snd (git_clone e)" "ReadDir e \<noteq> []"
  shows "map args (cmds (buildHandler e r)) =
        [[''clone'', ''https://'' @ RepoURL p, Join t ''src''], [''mod'', ''tidy''], buildArgs t p]
    \<and> buildHandler e r = buildHandler (e\<lparr>go_mod_tidy := ([], True)\<rparr>) r
    \<and> map args (cmds (buildHandler_part_001 e r)) =
        [[''clone'', ''https://'' @ RepoURL p, Join t ''src''], [''mod'', ''tidy''], buildArgs t p]
    \<and> TidyWarning (fst (go_mod_tidy e)) \<in> set (log (buildHandler_part_001 e r))"
proof -
  have fl: "is_flusher e"
    using assms(2) by (simp add: accepted_def)
  have "map args (cmds (buildHandler e r)) =
        [[''clone'', ''https://'' @ RepoURL p, Join t ''src''], [''mod'', ''tidy''], buildArgs t p]"
    using assms(3) build_cmds [OF _ assms(5,6,7), of p] assms(4)
    by (auto simp: buildHandler_accepted [OF assms(2)])
  then show ?thesis
    using buildHandler_part_001_tidy [OF fl assms(3,4,5,6)] assms(1)
    by (simp add: buildHandler_ignores_tidy)
qed

text \<open>The theorem at the demo request in the world where \<^verbatim>\<open>go mod tidy\<close> fails.\<close>

theorem tidy_failure_continues_witness:
  "\<not> snd (go_mod_tidy tidy_fails_world)
   \<and> map args (cmds (buildHandler tidy_fails_world demo_request)) =
        [[''clone'', ''https://example.org/demo'', Join ''/tmp/billder-1'' ''src''], [''mod'', ''tidy''],
         buildArgs ''/tmp/billder-1'' demo_payload]
   \<and> TidyWarning ''go: updates to go.mod needed'' \<in> set (log (buildHandler_part_001 tidy_fails_world demo_request))"
proof -
  have 1: "\<not> snd (go_mod_tidy tidy_fails_world)"
    by (simp add: tidy_fails_world_def)
  have 2: "accepted tidy_fails_world demo_request"
    by (simp add: accepted_def auth_fails_def tidy_fails_world_def demo_world_def demo_request_def)
  have 3: "Decode demo_request = Some demo_payload"
    by (simp add: demo_request_def)
  have 4: "TargetOS demo_payload = ''linux'' \<or> TargetOS demo_payload = ''windows''"
    by (simp add: demo_payload_def)
  have 5: "MkdirTemp tidy_fails_world = Some ''/tmp/billder-1''" "snd (git_clone tidy_fails_world)"
    "ReadDir tidy_fails_world \<noteq> []"
    by (simp_all add: tidy_fails_world_def demo_world_def)
  note t = tidy_failure_continues [OF 1 2 3 4 5]
  show ?thesis
    using 1 t [THEN conjunct1] t [THEN conjunct2, THEN conjunct2, THEN conjunct2]
    by (simp add: demo_payload_def tidy_fails_world_def)
qed

text \<open>
  Claim C7 as stated fails for the handler of cmd/billder: the log of a run in which
  \<^verbatim>\<open>go mod tidy\<close> failed has four lines, none of them about dependency resolution.
\<close>

theorem tidy_failure_not_logged_counterexample:
  "\<not> snd (go_mod_tidy tidy_fails_world)
   \<and> log (buildHandler tidy_fails_world demo_request) =
       [Received demo_payload,
        Cloned (Join ''/tmp/billder-1'' ''src'') [''main.go''],
        RunningBuild (''go'' # buildArgs ''/tmp/billder-1'' demo_payload),
        BinaryBuilt (outputBinary ''/tmp/billder-1'' demo_payload) (fmt_size_mb 10)]"
  by (simp add: buildHandler_def build_def clone_def tidy_def compile_def handover_def Let_def
      compiler_env_def tidy_fails_world_def demo_world_def demo_request_def demo_payload_def)

subsection \<open>Line terminators in progress messages (claim C5)\<close>

text \<open>
  Claim C5 does not hold of the code: \<^verbatim>\<open>sendProgress\<close> writes the message as it is. A
  message with an embedded line terminator is neither stripped nor rejected, and the
  handler passes such a message when a field of the payload contains one: the first
  progress event of the response below spans two lines.
\<close>

theorem sendProgress_keeps_line_terminator:
  "body (sendProgress (''a'' @ [NL] @ ''b'') start) = ''data: a'' @ [NL] @ ''b'' @ [NL, NL]
   \<and> body (buildHandler demo_world
        (demo_request\<lparr>Decode := Some (demo_payload\<lparr>RepoURL := ''a'' @ [NL] @ ''b'', TargetOS := ''plan9''\<rparr>)\<rparr>))
      = ''data: Starting job for a'' @ [NL] @ ''b [plan9/amd64]'' @ [NL, NL]
        @ ''data: Error: Unsupported OS. Only 'linux' and 'windows' supported.'' @ [NL, NL]"
  by (simp add: buildHandler_def build_def Let_def compiler_env_def progress_event_def
      demo_world_def demo_request_def demo_payload_def)

section \<open>Properties of the client\<close>

subsection \<open>Lines, and the loop on them\<close>

lemma split_line_None_iff: "split_line s = None \<longleftrightarrow> NL \<notin> set s"
  by (induction s) (auto split: option.splits)

lemma split_line_line: "NL \<notin> set l \<Longrightarrow> split_line (l @ NL # rest) = Some (l @ [NL], rest)"
  by (induction l) auto

lemma is_line_iff: "is_line l \<longleftrightarrow> (\<exists>m. l = m @ [NL] \<and> NL \<notin> set m)"
proof
  assume "is_line l"
  then have sl: "split_line l = Some (l, [])" by (simp add: is_line_def)
  then have "l \<noteq> []" by (auto dest: split_line_Some)
  then obtain m c where l: "l = m @ [c]" by (metis rev_exhaust)
  show "\<exists>m. l = m @ [NL] \<and> NL \<notin> set m"
  proof (cases "NL \<in> set m")
    case True
    then obtain u v where m: "m = u @ NL # v" "NL \<notin> set u"
      by (meson split_list_first)
    then have "split_line l = Some (u @ [NL], v @ [c])"
      using l split_line_line [of u "v @ [c]"] by simp
    then show ?thesis using sl by simp
  next
    case False
    have "c = NL"
    proof (rule ccontr)
      assume "c \<noteq> NL"
      then have "NL \<notin> set l" using False l by simp
      then show False using sl by (simp add: split_line_None_iff [symmetric])
    qed
    then show ?thesis using l False by blast
  qed
next
  assume "\<exists>m. l = m @ [NL] \<and> NL \<notin> set m"
  then show "is_line l"
    using split_line_line [of _ "[]"] by (auto simp: is_line_def)
qed

lemma split_line_is_line:
  "is_line l \<Longrightarrow> split_line (l @ rest) = Some (l, rest)"
  using split_line_append_Some [of l l "[]" rest] by (simp add: is_line_def)

lemma stream_loop_end:
  assumes "split_line (remaining rd) = None"
  shows "stream_loop rd out = ([], out, ([], []))"
proof -
  have "ReadBytes (fst rd) (snd rd) = (remaining rd, False, ([], []))"
    using ReadBytes_None [of "fst rd" "snd rd"] assms by (simp add: remaining_def)
  then show ?thesis
    by (subst stream_loop.simps) simp
qed

lemma stream_loop_skip:
  assumes "split_line (remaining rd) = Some (l, rest)"
    and "\<not> HasPrefix l ''event: binary_start''"
  shows "\<exists>rd1 out1. remaining rd1 = rest \<and> stream_loop rd out = stream_loop rd1 out1"
proof -
  obtain rd1 where rb: "ReadBytes (fst rd) (snd rd) = (l, True, rd1)" and rem: "remaining rd1 = rest"
    using ReadBytes_Some [of "fst rd" "snd rd" l rest] assms(1) by (auto simp: remaining_def)
  have "\<exists>out1. stream_loop rd out = stream_loop rd1 out1"
    by (subst stream_loop.simps) (use rb assms(2) in \<open>auto simp: Let_def\<close>)
  then show ?thesis
    using rem by blast
qed

lemma stream_loop_switch:
  assumes "remaining rd = sw @ dl @ bl @ art"
    and "is_line sw" "HasPrefix sw ''event: binary_start''" "is_line dl" "is_line bl"
  shows "\<exists>rd3. remaining rd3 = art
           \<and> stream_loop rd out = (TrimSpace (TrimPrefix dl ''data:''), out, rd3)"
proof -
  obtain rd1 where r1: "ReadBytes (fst rd) (snd rd) = (sw, True, rd1)"
      and m1: "remaining rd1 = dl @ bl @ art"
    using ReadBytes_Some [of "fst rd" "snd rd" sw "dl @ bl @ art"] assms(1,2)
      split_line_is_line [of sw "dl @ bl @ art"]
    by (auto simp: remaining_def)
  obtain rd2 where r2: "ReadBytes (fst rd1) (snd rd1) = (dl, True, rd2)"
      and m2: "remaining rd2 = bl @ art"
    using ReadBytes_Some [of "fst rd1" "snd rd1" dl "bl @ art"] m1 assms(4)
      split_line_is_line [of dl "bl @ art"]
    by (auto simp: remaining_def)
  obtain rd3 where r3: "ReadBytes (fst rd2) (snd rd2) = (bl, True, rd3)"
      and m3: "remaining rd3 = art"
    using ReadBytes_Some [of "fst rd2" "snd rd2" bl art] m2 assms(5)
      split_line_is_line [of bl art]
    by (auto simp: remaining_def)
  have "stream_loop rd out = (TrimSpace (TrimPrefix dl ''data:''), out, rd3)"
    by (subst stream_loop.simps) (use r1 r2 r3 assms(3) in \<open>simp add: Let_def\<close>)
  then show ?thesis
    using m3 by blast
qed

lemma stream_loop_no_switch:
  "\<not> has_switch (remaining rd) \<Longrightarrow> fst (stream_loop rd out) = []"
proof (induction "length (remaining rd)" arbitrary: rd out rule: less_induct)
  case less
  show ?case
  proof (cases "split_line (remaining rd)")
    case None
    then show ?thesis by (simp add: stream_loop_end)
  next
    case (Some p)
    obtain l rest where p: "p = (l, rest)" by (cases p)
    have no: "\<not> HasPrefix l ''event: binary_start''" "\<not> has_switch rest"
      using less.prems Some p by (subst (asm) has_switch.simps, simp)+
    obtain rd1 out1 where rd1: "remaining rd1 = rest"
        "stream_loop rd out = stream_loop rd1 out1"
      using stream_loop_skip [of rd l rest out] Some p no(1) by auto
    have "length rest < length (remaining rd)"
      using split_line_Some [of "remaining rd" l rest] Some p by auto
    then show ?thesis
      using less.hyps [of rd1 out1] rd1 no(2) by simp
  qed
qed

lemma stream_loop_skip_lines:
  "complete_lines pre \<Longrightarrow> \<not> has_switch pre \<Longrightarrow> remaining rd = pre @ rest \<Longrightarrow>
   \<exists>rd1 out1. remaining rd1 = rest \<and> stream_loop rd out = stream_loop rd1 out1"
proof (induction "length pre" arbitrary: pre rd out rule: less_induct)
  case less
  show ?case
  proof (cases "pre = []")
    case True
    then have "remaining rd = rest" using less.prems by simp
    then show ?thesis by blast
  next
    case False
    then have "NL \<in> set pre"
      using less.prems(1) by (auto simp: complete_lines_def dest: last_in_set)
    then obtain l pre' where sl: "split_line pre = Some (l, pre')"
      using split_line_None_iff [of pre] by (cases "split_line pre") auto
    have pre: "pre = l @ pre'" "l \<noteq> []"
      using split_line_Some [OF sl] by simp_all
    have no: "\<not> HasPrefix l ''event: binary_start''" "\<not> has_switch pre'"
      using less.prems(2) sl by (subst (asm) has_switch.simps, simp)+
    have cl: "complete_lines pre'"
      using less.prems(1) pre False by (cases "pre' = []") (auto simp: complete_lines_def)
    have "split_line (remaining rd) = Some (l, pre' @ rest)"
      using split_line_append_Some [OF sl, of rest] less.prems(3) by simp
    then obtain rd1 out1 where rd1: "remaining rd1 = pre' @ rest"
        "stream_loop rd out = stream_loop rd1 out1"
      using stream_loop_skip [of rd l "pre' @ rest" out] no(1) by auto
    have "length pre' < length pre" using pre by simp
    from less.hyps [OF this cl no(2) rd1(1), of out1] rd1(2)
    show ?thesis by auto
  qed
qed

lemma receive_after_switch:
  assumes stream: "concat chunks = pre @ sw @ dl @ bl @ art"
    and pre: "complete_lines pre" "\<not> has_switch pre"
    and sw: "is_line sw" "HasPrefix sw ''event: binary_start''"
    and dl: "is_line dl" and bl: "is_line bl"
  shows "\<exists>msgs rd. stream_loop ([], chunks) [] = (TrimSpace (TrimPrefix dl ''data:''), msgs, rd)
           \<and> fst rd @ concat (snd rd) = art"
proof -
  have "remaining ([], chunks) = pre @ (sw @ dl @ bl @ art)"
    using stream by (simp add: remaining_def)
  from stream_loop_skip_lines [OF pre this, of "[]"]
  obtain rd1 out1 where rd1: "remaining rd1 = sw @ dl @ bl @ art"
      "stream_loop ([], chunks) [] = stream_loop rd1 out1"
    by auto
  from stream_loop_switch [OF rd1(1) sw dl bl, of out1] rd1(2)
  show ?thesis by (auto simp: remaining_def)
qed


subsection \<open>A stream without switch signal (claim C8)\<close>

text \<open>
  Claim C8. When the connection ends (cleanly or not) before any terminated line that
  starts with the switch marker has arrived, the client ends with the message that no
  binary was received: it creates no file and writes nothing, and this outcome is not the
  download-interrupted outcome, whatever the cut of the stream into chunks. (The stream
  processor runs on responses with status 200, the only ones the client reads.)
\<close>

theorem no_switch_no_artifact:
  assumes "\<not> has_switch (concat chunks)"
  shows "outcome (receive can_create ending chunks) = NoBinary
    \<and> created (receive can_create ending chunks) = None
    \<and> written (receive can_create ending chunks) = []
    \<and> (\<forall>f. outcome (receive can_create ending chunks) \<noteq> Interrupted f)"
proof -
  have "fst (stream_loop ([], chunks) []) = []"
    using stream_loop_no_switch [of "([], chunks)" "[]"] assms by (simp add: remaining_def)
  then show ?thesis
    by (cases "stream_loop ([], chunks) []") (simp add: receive_def)
qed

text \<open>The theorem at a stream that breaks off inside the switch marker.\<close>

theorem no_switch_no_artifact_witness:
  "\<not> has_switch (concat failed_stream)
   \<and> outcome (receive (\<lambda>name. True) EOF failed_stream) = NoBinary
   \<and> created (receive (\<lambda>name. True) EOF failed_stream) = None
   \<and> outcome (receive (\<lambda>name. True) Broken failed_stream) = NoBinary"
proof -
  have h: "\<not> has_switch (concat failed_stream)"
    by code_simp
  show ?thesis
    using h no_switch_no_artifact [OF h, of "\<lambda>name. True" EOF]
      no_switch_no_artifact [OF h, of "\<lambda>name. True" Broken]
    by simp
qed

subsection \<open>The hand-over of the buffer (claim C2)\<close>

text \<open>
  Claim C2. Take any response stream in which the client detects the switch signal: some
  whole lines without the marker, the marker line, the line with the file name, the blank
  line, and then the artifact bytes; and take any cut of it into chunks. When the loop
  stops, the reader holds some bytes \<open>buffered\<close> that it had fetched past the blank line,
  and the connection still has \<open>rest\<close> to deliver. The file the client writes holds
  \<open>buffered\<close> first and then everything in \<open>rest\<close>, and that is exactly the bytes after
  the blank line.
\<close>

theorem handoff_lossless:
  assumes "concat chunks = pre @ sw @ dl @ [NL] @ art"
    and "complete_lines pre" "\<not> has_switch pre"
    and "is_line sw" "HasPrefix sw ''event: binary_start''"
    and "is_line dl" "TrimSpace (TrimPrefix dl ''data:'') \<noteq> []"
    and "can_create (TrimSpace (TrimPrefix dl ''data:''))"
  shows "\<exists>msgs buffered rest.
      stream_loop ([], chunks) [] = (TrimSpace (TrimPrefix dl ''data:''), msgs, (buffered, rest))
      \<and> created (receive can_create ending chunks) = Some (TrimSpace (TrimPrefix dl ''data:''))
      \<and> written (receive can_create ending chunks) = buffered @ concat rest
      \<and> buffered @ concat rest = art"
proof -
  have bl: "is_line [NL]"
    by (simp add: is_line_def)
  from receive_after_switch [OF assms(1,2,3,4,5,6) bl]
  obtain msgs rd where rd:
      "stream_loop ([], chunks) [] = (TrimSpace (TrimPrefix dl ''data:''), msgs, rd)"
      "fst rd @ concat (snd rd) = art"
    by blast
  obtain buffered rest where "rd = (buffered, rest)"
    by (cases rd)
  then show ?thesis
    using rd assms(7,8) by (simp add: receive_def WriteTo_def)
qed

text \<open>
  The theorem at a stream whose first chunk ends four bytes into the artifact: those four
  bytes, a line terminator among them, are the first bytes of the file.
\<close>

theorem handoff_lossless_witness:
  "stream_loop ([], overread_stream) [] = (''app'', [''Step 3/3: Compiling...''], (NL # ''ELF'', [''-bytes'']))
   \<and> created (receive (\<lambda>name. True) EOF overread_stream) = Some ''app''
   \<and> written (receive (\<lambda>name. True) EOF overread_stream) = NL # ''ELF-bytes''"
proof -
  have 1: "concat overread_stream
      = (''data: Step 3/3: Compiling...'' @ [NL, NL]) @ (''event: binary_start'' @ [NL])
        @ (''data: app'' @ [NL]) @ [NL] @ (NL # ''ELF-bytes'')"
    by (simp add: overread_stream_def)
  have 2: "complete_lines (''data: Step 3/3: Compiling...'' @ [NL, NL])"
    by (simp add: complete_lines_def)
  have 3: "\<not> has_switch (''data: Step 3/3: Compiling...'' @ [NL, NL])"
    by code_simp
  have 4: "is_line (''event: binary_start'' @ [NL])" "is_line (''data: app'' @ [NL])"
    by (simp_all add: is_line_def NL_def)
  have 5: "HasPrefix (''event: binary_start'' @ [NL]) ''event: binary_start''"
    by (simp add: HasPrefix_def)
  have 6: "TrimSpace (TrimPrefix (''data: app'' @ [NL]) ''data:'') = ''app''"
    by code_simp
  have 7: "TrimSpace (TrimPrefix (''data: app'' @ [NL]) ''data:'') \<noteq> []"
    unfolding 6 by simp
  have 8: "stream_loop ([], overread_stream) [] = (''app'', [''Step 3/3: Compiling...''], (NL # ''ELF'', [''-bytes'']))"
    by code_simp
  show ?thesis
    using handoff_lossless [OF 1 2 3 4(1) 5 4(2) 7, of "\<lambda>name. True" EOF] 6 8
    by simp
qed

section \<open>Server and client together\<close>

subsection \<open>The client on a stream of progress events\<close>

lemma progress_events_simps:
  "progress_events [] = []"
  "progress_events (m # ms) = progress_event m @ progress_events ms"
  by (simp_all add: progress_events_def)

lemma success_body:
  assumes "succeeds e r" "Decode r = Some p"
  shows "\<exists>sz bytes. Stat_size e = Some sz \<and> Open_file e = Some bytes \<and>
    body (buildHandler e r) =
      progress_events
        [''Starting job for '' @ RepoURL p @ '' ['' @ TargetOS p @ ''/''
           @ (if TargetArch p = [] then ''amd64'' else TargetArch p) @ '']'',
         ''Step 1/3: Cloning repository...'',
         ''Step 2/3: Resolving dependencies...'',
         ''Step 3/3: Compiling...'',
         ''Build Successful! Artifact size: '' @ fmt_size_mb sz @ '' MB'']
      @ switch_signal (artifact_name p) @ io_Copy (copy_error_after e) bytes"
proof -
  have acc: "accepted e r" and os: "TargetOS p = ''linux'' \<or> TargetOS p = ''windows''"
    using assms by (simp_all add: succeeds_def)
  obtain t sz bytes where ok: "MkdirTemp e = Some t" "Stat_size e = Some sz" "Open_file e = Some bytes"
      "snd (git_clone e)" "ReadDir e \<noteq> []" "snd (go_build e)"
    using assms(1) by (auto simp: succeeds_def)
  have "body (buildHandler e r) =
      progress_events
        [''Starting job for '' @ RepoURL p @ '' ['' @ TargetOS p @ ''/''
           @ (if TargetArch p = [] then ''amd64'' else TargetArch p) @ '']'',
         ''Step 1/3: Cloning repository...'',
         ''Step 2/3: Resolving dependencies...'',
         ''Step 3/3: Compiling...'',
         ''Build Successful! Artifact size: '' @ fmt_size_mb sz @ '' MB'']
      @ switch_signal (artifact_name p) @ io_Copy (copy_error_after e) bytes"
    using os ok assms(2)
    by (auto simp: buildHandler_accepted [OF acc] build_def clone_def tidy_def compile_def
        handover_def Let_def compiler_env_def progress_events_simps Base_outputBinary
        artifact_name_def)
  then show ?thesis
    using ok by blast
qed


lemma HasPrefix_Cons: "HasPrefix (c # s) (d # t) = (c = d \<and> HasPrefix s t)"
  by (auto simp: HasPrefix_def)

lemma has_switch_Nil: "\<not> has_switch []"
  by (subst has_switch.simps) simp

lemma has_switch_progress_event:
  assumes "NL \<notin> set m"
  shows "has_switch (progress_event m @ s) = has_switch s"
proof -
  have 1: "split_line (progress_event m @ s) = Some (''data: '' @ m @ [NL], NL # s)"
    using split_line_line [of "''data: '' @ m" "NL # s"] assms
    by (simp add: progress_event_def NL_def)
  have 3: "split_line (NL # s) = Some ([NL], s)"
    by simp
  have 4: "\<not> HasPrefix [NL] ''event: binary_start''"
    by (simp add: HasPrefix_def)
  have "has_switch (progress_event m @ s) = has_switch (NL # s)"
    by (subst has_switch.simps) (simp add: 1 HasPrefix_Cons)
  also have "\<dots> = has_switch s"
    by (subst has_switch.simps) (simp add: 3 4)
  finally show ?thesis .
qed

lemma progress_events_no_switch:
  "list_all (\<lambda>m. NL \<notin> set m) ms \<Longrightarrow> \<not> has_switch (progress_events ms)"
  by (induction ms) (simp_all add: progress_events_simps has_switch_Nil has_switch_progress_event)

lemma complete_lines_progress_events: "complete_lines (progress_events ms)"
proof (induction ms)
  case Nil
  show ?case by (simp add: progress_events_simps complete_lines_def)
next
  case (Cons m ms)
  have "last (progress_event m @ progress_events ms) = NL"
    using Cons by (cases "progress_events ms = []") (simp_all add: complete_lines_def progress_event_def)
  then show ?case
    by (simp add: progress_events_simps complete_lines_def)
qed

lemma switch_signal_lines:
  "switch_signal name = (''event: binary_start'' @ [NL]) @ (''data: '' @ name @ [NL]) @ [NL]"
  by (simp add: switch_signal_def)

lemma receive_server_stream:
  assumes "concat chunks = progress_events ms @ switch_signal name @ raw"
    and "list_all (\<lambda>m. NL \<notin> set m) ms" "NL \<notin> set name"
    and "TrimSpace (TrimPrefix (''data: '' @ name @ [NL]) ''data:'') = name" "name \<noteq> []"
    and "can_create name"
  shows "created (receive can_create ending chunks) = Some name"
    "written (receive can_create ending chunks) = raw"
proof -
  have 1: "concat chunks = progress_events ms @ (''event: binary_start'' @ [NL])
      @ (''data: '' @ name @ [NL]) @ [NL] @ raw"
    using assms(1) by (simp add: switch_signal_lines)
  have 2: "is_line (''event: binary_start'' @ [NL])" "is_line (''data: '' @ name @ [NL])" "is_line [NL]"
    using assms(3) split_line_line [of "''data: '' @ name" "[]"]
    by (simp_all add: is_line_def NL_def)
  have 3: "HasPrefix (''event: binary_start'' @ [NL]) ''event: binary_start''"
    by (simp add: HasPrefix_def)
  from receive_after_switch [OF 1 complete_lines_progress_events
      progress_events_no_switch [OF assms(2)] 2(1) 3 2(2) 2(3)]
  obtain msgs rd where rd:
      "stream_loop ([], chunks) [] = (TrimSpace (TrimPrefix (''data: '' @ name @ [NL]) ''data:''), msgs, rd)"
      "fst rd @ concat (snd rd) = raw"
    by blast
  show "created (receive can_create ending chunks) = Some name"
    "written (receive can_create ending chunks) = raw"
    using rd assms(4,5,6) by (simp_all add: receive_def WriteTo_def)
qed

lemma trim_artifact_names:
  "TrimSpace (TrimPrefix (''data: '' @ ''app'' @ [NL]) ''data:'') = ''app''"
  "TrimSpace (TrimPrefix (''data: '' @ ''app.exe'' @ [NL]) ''data:'') = ''app.exe''"
  by code_simp+

subsection \<open>The name of the artifact (claim C10)\<close>

lemma success_messages_clean:
  assumes "TargetOS p = ''linux'' \<or> TargetOS p = ''windows''"
    and "NL \<notin> set (RepoURL p)" "NL \<notin> set (TargetArch p)"
  shows "list_all (\<lambda>m. NL \<notin> set m)
          [''Starting job for '' @ RepoURL p @ '' ['' @ TargetOS p @ ''/''
             @ (if TargetArch p = [] then ''amd64'' else TargetArch p) @ '']'',
           ''Step 1/3: Cloning repository...'',
           ''Step 2/3: Resolving dependencies...'',
           ''Step 3/3: Compiling...'',
           ''Build Successful! Artifact size: '' @ fmt_size_mb sz @ '' MB'']"
  using assms fmt_size_mb_clean [of sz] by (auto simp: NL_def)

lemma artifact_name_facts:
  "NL \<notin> set (artifact_name p)" "artifact_name p \<noteq> []"
  "TrimSpace (TrimPrefix (''data: '' @ artifact_name p @ [NL]) ''data:'') = artifact_name p"
  "CHR ''/'' \<notin> set (artifact_name p)"
  using trim_artifact_names by (simp_all add: artifact_name_def NL_def)

text \<open>
  The round trip of a successful build: the file the client writes holds exactly the
  bytes \<^verbatim>\<open>io.Copy\<close> wrote after the switch signal.
\<close>

lemma success_round_trip:
  assumes "succeeds e r" "Decode r = Some p"
    and "NL \<notin> set (RepoURL p)" "NL \<notin> set (TargetArch p)"
    and "concat chunks = body (buildHandler e r)"
    and "can_create (artifact_name p)"
  shows "\<exists>bytes. Open_file e = Some bytes
    \<and> written (receive can_create ending chunks) = io_Copy (copy_error_after e) bytes"
proof -
  obtain sz bytes where b: "Open_file e = Some bytes"
      "body (buildHandler e r) =
        progress_events
          [''Starting job for '' @ RepoURL p @ '' ['' @ TargetOS p @ ''/''
             @ (if TargetArch p = [] then ''amd64'' else TargetArch p) @ '']'',
           ''Step 1/3: Cloning repository...'',
           ''Step 2/3: Resolving dependencies...'',
           ''Step 3/3: Compiling...'',
           ''Build Successful! Artifact size: '' @ fmt_size_mb sz @ '' MB'']
        @ switch_signal (artifact_name p) @ io_Copy (copy_error_after e) bytes"
    using success_body [OF assms(1,2)] by blast
  have os: "TargetOS p = ''linux'' \<or> TargetOS p = ''windows''"
    using assms(1,2) by (simp add: succeeds_def)
  have "written (receive can_create ending chunks) = io_Copy (copy_error_after e) bytes"
    using receive_server_stream(2) [of chunks _ "artifact_name p"
        "io_Copy (copy_error_after e) bytes" can_create ending,
        OF _ success_messages_clean [OF os assms(3,4)] artifact_name_facts(1,3,2) assms(6)]
      assms(5) b(2) by simp
  then show ?thesis
    using b(1) by blast
qed

text \<open>
  Claim C10. For every successful build the switch signal carries \<^verbatim>\<open>app\<close> for a linux
  target and \<^verbatim>\<open>app.exe\<close> for a windows target, whatever the repository and whatever the
  temporary directory, and the name has no path separator, so it names a file in the
  client's working directory. A client that receives the response, in any cut into chunks
  and with either kind of connection end, creates its output file under exactly that name.
  For the client the theorem asks that the repository reference and the architecture
  contain no line terminator: a build can only succeed for a reference that
  \<^verbatim>\<open>git clone\<close> accepted and an architecture that \<^verbatim>\<open>go build\<close> accepted.
\<close>

theorem artifact_name_fixed:
  assumes "succeeds e r" "Decode r = Some p"
  shows "(\<exists>ms bytes. Open_file e = Some bytes \<and>
            body (buildHandler e r)
              = progress_events ms @ switch_signal (artifact_name p)
                @ io_Copy (copy_error_after e) bytes)
    \<and> artifact_name p = (if TargetOS p = ''windows'' then ''app.exe'' else ''app'')
    \<and> CHR ''/'' \<notin> set (artifact_name p)
    \<and> (NL \<notin> set (RepoURL p) \<and> NL \<notin> set (TargetArch p)
        \<and> concat chunks = body (buildHandler e r) \<and> can_create (artifact_name p)
        \<longrightarrow> created (receive can_create ending chunks) = Some (artifact_name p))"
proof -
  obtain sz bytes where b: "Open_file e = Some bytes"
      "body (buildHandler e r) =
        progress_events
          [''Starting job for '' @ RepoURL p @ '' ['' @ TargetOS p @ ''/''
             @ (if TargetArch p = [] then ''amd64'' else TargetArch p) @ '']'',
           ''Step 1/3: Cloning repository...'',
           ''Step 2/3: Resolving dependencies...'',
           ''Step 3/3: Compiling...'',
           ''Build Successful! Artifact size: '' @ fmt_size_mb sz @ '' MB'']
        @ switch_signal (artifact_name p) @ io_Copy (copy_error_after e) bytes"
    using success_body [OF assms(1,2)] by blast
  have os: "TargetOS p = ''linux'' \<or> TargetOS p = ''windows''"
    using assms(1,2) by (simp add: succeeds_def)
  have "created (receive can_create ending chunks) = Some (artifact_name p)"
    if "NL \<notin> set (RepoURL p)" "NL \<notin> set (TargetArch p)"
      "concat chunks = body (buildHandler e r)" "can_create (artifact_name p)"
    using receive_server_stream(1) [of chunks _ "artifact_name p"
        "io_Copy (copy_error_after e) bytes" can_create ending,
        OF _ success_messages_clean [OF os that(1,2)] artifact_name_facts(1,3,2) that(4)]
      that(3) b(2) by simp
  then show ?thesis
    using b artifact_name_facts(4) [of p] by (auto simp: artifact_name_def)
qed

text \<open>The theorem at the demo request, for a linux and for a windows target.\<close>

theorem artifact_name_fixed_witness:
  "succeeds demo_world demo_request
   \<and> artifact_name demo_payload = ''app''
   \<and> created (receive (\<lambda>name. True) EOF [body (buildHandler demo_world demo_request)]) = Some ''app''
   \<and> succeeds demo_world (demo_request\<lparr>Decode := Some (demo_payload\<lparr>TargetOS := ''windows''\<rparr>)\<rparr>)
   \<and> artifact_name (demo_payload\<lparr>TargetOS := ''windows''\<rparr>) = ''app.exe''
   \<and> created (receive (\<lambda>name. True) Broken
        [body (buildHandler demo_world (demo_request\<lparr>Decode := Some (demo_payload\<lparr>TargetOS := ''windows''\<rparr>)\<rparr>))])
       = Some ''app.exe''"
proof -
  let ?r = "demo_request\<lparr>Decode := Some (demo_payload\<lparr>TargetOS := ''windows''\<rparr>)\<rparr>"
  have 1: "succeeds demo_world demo_request" "succeeds demo_world ?r"
    by (simp_all add: succeeds_def accepted_def auth_fails_def demo_world_def demo_request_def
        demo_payload_def)
  have 2: "Decode demo_request = Some demo_payload"
    "Decode ?r = Some (demo_payload\<lparr>TargetOS := ''windows''\<rparr>)"
    by (simp_all add: demo_request_def)
  have 3: "NL \<notin> set (RepoURL demo_payload)" "NL \<notin> set (TargetArch demo_payload)"
    "NL \<notin> set (RepoURL (demo_payload\<lparr>TargetOS := ''windows''\<rparr>))"
    "NL \<notin> set (TargetArch (demo_payload\<lparr>TargetOS := ''windows''\<rparr>))"
    by (simp_all add: demo_payload_def NL_def)
  have 4: "TargetOS demo_payload = ''linux''"
    "TargetOS (demo_payload\<lparr>TargetOS := ''windows''\<rparr>) = ''windows''"
    by (simp_all add: demo_payload_def)
  show ?thesis
    using 1 3 4
      artifact_name_fixed [OF 1(1) 2(1), of "[body (buildHandler demo_world demo_request)]"
        "\<lambda>name. True" EOF]
      artifact_name_fixed [OF 1(2) 2(2), of "[body (buildHandler demo_world ?r)]"
        "\<lambda>name. True" Broken]
    by simp
qed

subsection \<open>Failed stages (claim C6)\<close>

text \<open>
  When the clone or the compilation fails, the handler writes progress events only, the
  last one reporting the failure, and stops. A client that receives this response ends
  without artifact, provided no field of the payload contains a line terminator.
\<close>

lemma receive_no_switch:
  assumes "\<not> has_switch (concat chunks)"
  shows "outcome (receive can_create ending chunks) = NoBinary"
    "created (receive can_create ending chunks) = None"
proof -
  have "fst (stream_loop ([], chunks) []) = []"
    using stream_loop_no_switch [of "([], chunks)" "[]"] assms by (simp add: remaining_def)
  then show "outcome (receive can_create ending chunks) = NoBinary"
    "created (receive can_create ending chunks) = None"
    by (cases "stream_loop ([], chunks) []"; simp add: receive_def)+
qed

lemma stage_failure_body:
  assumes "accepted e r" "Decode r = Some p" "TargetOS p = ''linux'' \<or> TargetOS p = ''windows''"
    and "MkdirTemp e = Some t"
    and "\<not> snd (git_clone e) \<or> ReadDir e = [] \<or> \<not> snd (go_build e)"
  shows "body (buildHandler e r) =
      progress_events
        ([''Starting job for '' @ RepoURL p @ '' ['' @ TargetOS p @ ''/''
            @ (if TargetArch p = [] then ''amd64'' else TargetArch p) @ '']'',
          ''Step 1/3: Cloning repository...'']
         @ (if snd (git_clone e) \<and> ReadDir e \<noteq> []
            then [''Step 2/3: Resolving dependencies...'', ''Step 3/3: Compiling...''] else [])
         @ [failure_message e])"
  using assms(2,3,4,5)
  by (auto simp: buildHandler_accepted [OF assms(1)] build_def clone_def tidy_def compile_def
      Let_def compiler_env_def progress_events_simps failure_message_def)

lemma stage_failure_no_artifact:
  assumes "accepted e r" "Decode r = Some p" "TargetOS p = ''linux'' \<or> TargetOS p = ''windows''"
    and "MkdirTemp e = Some t"
    and "\<not> snd (git_clone e) \<or> ReadDir e = [] \<or> \<not> snd (go_build e)"
    and "NL \<notin> set (RepoURL p)" "NL \<notin> set (TargetArch p)"
    and "concat chunks = body (buildHandler e r)"
  shows "outcome (receive can_create ending chunks) = NoBinary"
    "created (receive can_create ending chunks) = None"
proof -
  have "list_all (\<lambda>m. NL \<notin> set m)
        ([''Starting job for '' @ RepoURL p @ '' ['' @ TargetOS p @ ''/''
            @ (if TargetArch p = [] then ''amd64'' else TargetArch p) @ '']'',
          ''Step 1/3: Cloning repository...'']
         @ (if snd (git_clone e) \<and> ReadDir e \<noteq> []
            then [''Step 2/3: Resolving dependencies...'', ''Step 3/3: Compiling...''] else [])
         @ [failure_message e])"
    using assms(3,6,7) by (auto simp: failure_message_def NL_def)
  then have "\<not> has_switch (concat chunks)"
    using progress_events_no_switch stage_failure_body [OF assms(1,2,3,4,5)] assms(8) by simp
  then show "outcome (receive can_create ending chunks) = NoBinary"
    "created (receive can_create ending chunks) = None"
    by (rule receive_no_switch)+
qed

text \<open>
  Claim C6 does not hold of the code for every request. When the clone fails for the
  request below, the handler starts no other subprocess and emits no switch signal itself,
  but the bytes of its first progress event contain the text of one (see claim C5), and the
  client's artifact sink is invoked: it creates the file \<^verbatim>\<open>pwn\<close> and writes the rest of
  the response into it.
\<close>

theorem injected_switch_reaches_sink:
  "\<not> snd (git_clone clone_fails_world)
   \<and> map prog (cmds (buildHandler clone_fails_world injected_request)) = [''git'']
   \<and> body (buildHandler clone_fails_world injected_request) =
       ''data: Starting job for x'' @ [NL] @ ''event: binary_start'' @ [NL] @ ''data: pwn'' @ [NL, NL]
       @ '' [linux/amd64]'' @ [NL, NL]
       @ ''data: Step 1/3: Cloning repository...'' @ [NL, NL]
       @ ''data: Error: Git clone failed. Is the URL correct?'' @ [NL, NL]
   \<and> created (receive (\<lambda>name. True) EOF [body (buildHandler clone_fails_world injected_request)])
       = Some ''pwn''
   \<and> written (receive (\<lambda>name. True) EOF [body (buildHandler clone_fails_world injected_request)])
       = '' [linux/amd64]'' @ [NL, NL]
         @ ''data: Step 1/3: Cloning repository...'' @ [NL, NL]
         @ ''data: Error: Git clone failed. Is the URL correct?'' @ [NL, NL]"
proof -
  have b: "body (buildHandler clone_fails_world injected_request) =
       ''data: Starting job for x'' @ [NL] @ ''event: binary_start'' @ [NL] @ ''data: pwn'' @ [NL, NL]
       @ '' [linux/amd64]'' @ [NL, NL]
       @ ''data: Step 1/3: Cloning repository...'' @ [NL, NL]
       @ ''data: Error: Git clone failed. Is the URL correct?'' @ [NL, NL]"
    by (simp add: buildHandler_def build_def clone_def Let_def compiler_env_def progress_event_def
        clone_fails_world_def injected_request_def demo_world_def demo_request_def demo_payload_def)
  have c: "\<not> snd (git_clone clone_fails_world)"
    by (simp add: clone_fails_world_def)
  have d: "map prog (cmds (buildHandler clone_fails_world injected_request)) = [''git'']"
    by (simp add: buildHandler_def build_def Let_def compiler_env_def clone_frame
        clone_fails_world_def injected_request_def demo_world_def demo_request_def demo_payload_def)
  show ?thesis
    unfolding b d using c by code_simp
qed

subsection \<open>The shape of the response stream (claim C1)\<close>

lemma io_Copy_take: "\<exists>n. io_Copy lim bytes = take n bytes"
proof (cases lim)
  case None
  then have "io_Copy lim bytes = take (length bytes) bytes"
    by (simp add: io_Copy_def)
  then show ?thesis by blast
next
  case (Some n)
  then have "io_Copy lim bytes = take n bytes"
    by (simp add: io_Copy_def)
  then show ?thesis by blast
qed

lemma stream_shape_form:
  assumes "stream_shape True e b"
  shows "stream_form (Open_file e) b"
proof -
  obtain ms where ms: "list_all (\<lambda>m. NL \<notin> set m) ms"
      "b = progress_events ms \<or>
       (\<exists>name bytes. (name = ''app'' \<or> name = ''app.exe'') \<and> Open_file e = Some bytes \<and>
          b = progress_events ms @ switch_signal name @ io_Copy (copy_error_after e) bytes)"
    using assms unfolding stream_shape_def by auto
  show ?thesis
  proof (cases "b = progress_events ms")
    case True
    then show ?thesis
      unfolding stream_form_def using ms(1) by blast
  next
    case False
    then obtain name bytes where nb: "name = ''app'' \<or> name = ''app.exe''"
        "Open_file e = Some bytes"
        "b = progress_events ms @ switch_signal name @ io_Copy (copy_error_after e) bytes"
      using ms(2) by blast
    obtain n where n: "io_Copy (copy_error_after e) bytes = take n bytes"
      using io_Copy_take by blast
    have "NL \<notin> set name"
      using nb(1) by (auto simp: NL_def)
    then show ?thesis
      unfolding stream_form_def using ms(1) nb(2,3) n by metis
  qed
qed

lemma rejected_body:
  assumes "\<not> accepted e r"
  shows "body (buildHandler e r) =
      (if Method r \<noteq> ''POST'' then ''Method Not Allowed'' @ [NL]
       else if auth_fails e r then ''Unauthorized'' @ [NL]
       else ''Streaming unsupported'' @ [NL])"
  using assms by (auto simp: buildHandler_def accepted_def auth_fails_def Let_def)

text \<open>
  Claim C1, as amended. For every request that passes the pre-flight checks (method,
  shared secret, streaming writer) and whose payload contains no line terminator, the
  status is 200 and the body has the form the specification describes: zero or more
  progress events, each message free of line terminators, followed by either nothing, or
  by exactly one switch signal, naming \<^verbatim>\<open>app\<close> or \<^verbatim>\<open>app.exe\<close>, and then the bytes
  \<^verbatim>\<open>io.Copy\<close> wrote of the built file and nothing else: all of them, or a prefix when the
  copy failed. No line of the progress events starts with the switch marker, so the switch
  signal, when there is one, is the only one and the last structured element. A request
  that fails a pre-flight check gets status 405, 401 or 500 and the one-line plain-text
  body of \<^verbatim>\<open>http.Error\<close> instead of a stream. The theorem says nothing of a payload that
  contains a line terminator (claim C5).
\<close>

theorem accepted_stream_form:
  "(accepted e r \<and> clean_request r \<longrightarrow>
      status (buildHandler e r) = 200
      \<and> stream_form (Open_file e) (body (buildHandler e r))
      \<and> (\<exists>ms. list_all (\<lambda>m. NL \<notin> set m) ms \<and> \<not> has_switch (progress_events ms) \<and>
           (body (buildHandler e r) = progress_events ms \<or>
            (\<exists>name bytes. (name = ''app'' \<or> name = ''app.exe'') \<and> Open_file e = Some bytes \<and>
               body (buildHandler e r)
                 = progress_events ms @ switch_signal name @ io_Copy (copy_error_after e) bytes))))
   \<and> (\<not> accepted e r \<longrightarrow>
        status (buildHandler e r) \<in> {405, 401, 500}
        \<and> body (buildHandler e r) =
            (if Method r \<noteq> ''POST'' then ''Method Not Allowed'' @ [NL]
             else if auth_fails e r then ''Unauthorized'' @ [NL]
             else ''Streaming unsupported'' @ [NL]))"
proof (intro conjI impI)
  assume a: "accepted e r \<and> clean_request r"
  then have acc: "accepted e r" and cl: "\<forall>p. Decode r = Some p \<longrightarrow> clean_payload p"
    by (auto simp: clean_request_def)
  show "status (buildHandler e r) = 200"
    using acc by (simp add: buildHandler_status accepted_def)
  have sh: "stream_shape True e (body (buildHandler e r))"
    by (rule buildHandler_shape [OF acc]) (rule cl)
  show "stream_form (Open_file e) (body (buildHandler e r))"
    by (rule stream_shape_form [OF sh])
  obtain ms where ms: "list_all (\<lambda>m. NL \<notin> set m) ms"
      "body (buildHandler e r) = progress_events ms \<or>
       (\<exists>name bytes. (name = ''app'' \<or> name = ''app.exe'') \<and> Open_file e = Some bytes \<and>
          body (buildHandler e r)
            = progress_events ms @ switch_signal name @ io_Copy (copy_error_after e) bytes)"
    using sh unfolding stream_shape_def by auto
  show "\<exists>ms. list_all (\<lambda>m. NL \<notin> set m) ms \<and> \<not> has_switch (progress_events ms) \<and>
           (body (buildHandler e r) = progress_events ms \<or>
            (\<exists>name bytes. (name = ''app'' \<or> name = ''app.exe'') \<and> Open_file e = Some bytes \<and>
               body (buildHandler e r)
                 = progress_events ms @ switch_signal name @ io_Copy (copy_error_after e) bytes))"
    using ms progress_events_no_switch [OF ms(1)] by blast
next
  assume n: "\<not> accepted e r"
  show "status (buildHandler e r) \<in> {405, 401, 500}"
    using n by (auto simp: buildHandler_status accepted_def)
  show "body (buildHandler e r) =
            (if Method r \<noteq> ''POST'' then ''Method Not Allowed'' @ [NL]
             else if auth_fails e r then ''Unauthorized'' @ [NL]
             else ''Streaming unsupported'' @ [NL])"
    by (rule rejected_body [OF n])
qed

text \<open>
  The theorem at the demo request, and at the same request against a writer that cannot
  stream.
\<close>

theorem accepted_stream_form_witness:
  "accepted demo_world demo_request \<and> clean_request demo_request
   \<and> status (buildHandler demo_world demo_request) = 200
   \<and> stream_form (Open_file demo_world) (body (buildHandler demo_world demo_request))
   \<and> \<not> accepted (demo_world\<lparr>is_flusher := False\<rparr>) demo_request
   \<and> body (buildHandler (demo_world\<lparr>is_flusher := False\<rparr>) demo_request)
       = ''Streaming unsupported'' @ [NL]"
proof -
  have a: "accepted demo_world demo_request" "clean_request demo_request"
    "\<not> accepted (demo_world\<lparr>is_flusher := False\<rparr>) demo_request"
    "Method demo_request = ''POST''" "\<not> auth_fails (demo_world\<lparr>is_flusher := False\<rparr>) demo_request"
    by (simp_all add: accepted_def auth_fails_def clean_request_def clean_payload_def
        demo_world_def demo_request_def demo_payload_def NL_def)
  show ?thesis
    using a accepted_stream_form [of demo_world demo_request]
      accepted_stream_form [of "demo_world\<lparr>is_flusher := False\<rparr>" demo_request]
    by simp
qed

text \<open>The first byte of a stream that starts with a progress event or with the switch signal.\<close>

lemma hd_progress_events: "hd (progress_events (m # ms) @ s) = CHR ''d''"
  by (simp add: progress_events_def progress_event_def)

lemma hd_switch_signal: "hd (switch_signal n @ s) = CHR ''e''"
  by (simp add: switch_signal_def)

text \<open>
  Claim C1 as stated fails for a rejected request: the body written for a GET request is
  the line \<^verbatim>\<open>Method Not Allowed\<close>, which is neither empty nor a sequence of progress events
  with or without a switch signal.
\<close>

theorem rejected_body_counterexample:
  "\<not> stream_form (Open_file demo_world)
       (body (buildHandler demo_world (demo_request\<lparr>Method := ''GET''\<rparr>)))"
proof
  let ?b = "body (buildHandler demo_world (demo_request\<lparr>Method := ''GET''\<rparr>))"
  have b: "?b = ''Method Not Allowed'' @ [NL]"
    by (simp add: buildHandler_def demo_request_def)
  assume "stream_form (Open_file demo_world) ?b"
  then obtain ms where ms: "?b = progress_events ms \<or> (\<exists>name raw. ?b = progress_events ms @ switch_signal name @ raw)"
    unfolding stream_form_def by blast
  show False
  proof (cases ms)
    case Nil
    then have "?b = [] \<or> (\<exists>name raw. ?b = switch_signal name @ raw)"
      using ms by (simp add: progress_events_def)
    then have "?b = [] \<or> hd ?b = CHR ''e''"
      using hd_switch_signal by metis
    then show False
      unfolding b by simp
  next
    case (Cons m ms')
    then have "hd ?b = CHR ''d''"
      using ms hd_progress_events [of m ms' "[]"] hd_progress_events [of m ms'] by auto
    then show False
      unfolding b by simp
  qed
qed

text \<open>
  The form is about bytes, not about calls of the encoder: the response to the request of
  claim C6, whose first message contains line terminators, does not have it.
\<close>

lemma injected_body_not_stream_form:
  "\<not> stream_form file (body (buildHandler clone_fails_world injected_request))"
proof
  let ?b = "body (buildHandler clone_fails_world injected_request)"
  let ?tail = "''event: binary_start'' @ [NL] @ ''data: pwn'' @ [NL, NL]
       @ '' [linux/amd64]'' @ [NL, NL]
       @ ''data: Step 1/3: Cloning repository...'' @ [NL, NL]
       @ ''data: Error: Git clone failed. Is the URL correct?'' @ [NL, NL]"
  have b: "?b = ''data: '' @ ''Starting job for x'' @ NL # ?tail"
    by (simp add: buildHandler_def build_def clone_def Let_def compiler_env_def progress_event_def
        clone_fails_world_def injected_request_def demo_world_def demo_request_def demo_payload_def)
  assume "stream_form file ?b"
  then obtain ms where ms: "list_all (\<lambda>m. NL \<notin> set m) ms"
      "?b = progress_events ms \<or> (\<exists>name raw. ?b = progress_events ms @ switch_signal name @ raw)"
    unfolding stream_form_def by blast
  show False
  proof (cases ms)
    case Nil
    then have "?b = [] \<or> (\<exists>name raw. ?b = switch_signal name @ raw)"
      using ms(2) by (simp add: progress_events_def)
    then have "?b = [] \<or> hd ?b = CHR ''e''"
      using hd_switch_signal by metis
    then show False
      unfolding b by simp
  next
    case (Cons m ms')
    then have m: "NL \<notin> set m" and "\<exists>rest. ?b = ''data: '' @ m @ NL # NL # rest"
      using ms by (auto simp: progress_events_def progress_event_def)
    then obtain rest where "''data: '' @ ''Starting job for x'' @ NL # ?tail = ''data: '' @ m @ NL # NL # rest"
      unfolding b by blast
    then have eq: "''Starting job for x'' @ NL # ?tail = m @ NL # (NL # rest)"
      by simp
    have "split_line (''Starting job for x'' @ NL # ?tail) = Some (''Starting job for x'' @ [NL], ?tail)"
      by (rule split_line_line) (simp add: NL_def)
    moreover have "split_line (m @ NL # (NL # rest)) = Some (m @ [NL], NL # rest)"
      by (rule split_line_line [OF m])
    ultimately have "?tail = NL # rest"
      unfolding eq by simp
    then show False
      by (simp add: NL_def)
  qed
qed

end
